theory Spec2Isabelle
  imports Complex_Main "HOL-Library.Monad_Syntax" "HOL-Library.Word" "HOL-Library.AList"
begin

section \<open>PlantBot2 production firmware: the adaptive duty-cycle controller\<close>

text \<open>
  The development embeds the decision logic of
  \<^verbatim>\<open>firmware/PlatformIO/plantbot_production/src/main.cpp\<close> and the constants of
  \<^verbatim>\<open>include/plantbot2_pins.h\<close>.

  Conventions of the embedding:
  \<^item> a C \<^verbatim>\<open>float\<close> is a \<^typ>\<open>real\<close>: comparisons and the arithmetic of the policy are
    exact, rounding, NaN and infinities are outside the model. The thresholds are the
    decimals of the header; the device compares a binary32 reading with the \<^verbatim>\<open>double\<close>
    nearest to the decimal. For the decimals of the header that orders every binary32
    reading as the decimal does, and no binary32 reading equals a threshold other than
    4.0, so on the device a reading is never exactly at 3.6 or 3.7. Where a property
    depends on that, the reading is required to be a binary32 value (\<open>is_binary32\<close>);
  \<^item> a C \<^verbatim>\<open>int\<close> is an \<^typ>\<open>int\<close>, and the operator \<^verbatim>\<open>%\<close> is \<open>c_mod\<close>, which
    truncates towards zero as C++ does (HOL's \<open>mod\<close> rounds down);
  \<^item> the counter \<^verbatim>\<open>uint32_t failedUploads\<close> is a \<^typ>\<open>32 word\<close>, so \<open>+ 1\<close> wraps as
    on the device; sleep durations never exceed 2880 minutes and are \<^typ>\<open>nat\<close>;
  \<^item> the array \<^verbatim>\<open>float batteryHistory[BATTERY_TREND_SAMPLES]\<close> is a list, and an access
    outside the array (undefined behaviour in C++) is the result \<open>None\<close>;
  \<^item> the variables in RTC memory are the record \<open>rtc\<close>, passed in and returned;
  \<^item> sensors, WiFi and the HTTP transport are inputs (record \<open>env\<close>); what the firmware
    does to the outside world is a list of \<open>event\<close>s. Serial output, the status LED and
    GPIO configuration are left out.
\<close>

subsection \<open>Constants of plantbot2\_pins.h\<close>

definition BATTERY_MAX_VOLTAGE :: real where "BATTERY_MAX_VOLTAGE = 4.2"
definition BATTERY_LOW_VOLTAGE :: real where "BATTERY_LOW_VOLTAGE = 3.7"
definition BATTERY_CRITICAL_VOLTAGE :: real where "BATTERY_CRITICAL_VOLTAGE = 3.7"
definition BATTERY_UVLO_VOLTAGE :: real where "BATTERY_UVLO_VOLTAGE = 3.6"
definition CHARGING_DETECT_VOLTAGE :: real where "CHARGING_DETECT_VOLTAGE = 4.0"
definition BATTERY_TREND_SAMPLES :: int where "BATTERY_TREND_SAMPLES = 10"

definition SLEEP_DURATION_MINUTES :: nat where "SLEEP_DURATION_MINUTES = 120"
definition SLEEP_DURATION_US :: nat where
  "SLEEP_DURATION_US = SLEEP_DURATION_MINUTES * 60 * 1000000"
definition CLOUD_WAKEUP_DELAY_MS :: nat where "CLOUD_WAKEUP_DELAY_MS = 90000"
definition CRITICAL_BATTERY_SLEEP_HOURS :: nat where "CRITICAL_BATTERY_SLEEP_HOURS = 24"
definition UVLO_SLEEP_HOURS :: nat where "UVLO_SLEEP_HOURS = 48"

definition CHARGING_LIGHT_THRESHOLD :: int where "CHARGING_LIGHT_THRESHOLD = 2000"
definition MIN_SLEEP_MINUTES :: nat where "MIN_SLEEP_MINUTES = 120"
definition MAX_SLEEP_MINUTES :: nat where "MAX_SLEEP_MINUTES = 360"
definition NORMAL_SLEEP_MINUTES :: nat where "NORMAL_SLEEP_MINUTES = 120"
definition CRITICAL_SLEEP_MINUTES :: nat where "CRITICAL_SLEEP_MINUTES = 1440"
definition UVLO_SLEEP_MINUTES :: nat where "UVLO_SLEEP_MINUTES = 2880"

definition MAX_RETRIES :: int where "MAX_RETRIES = 2"

subsection \<open>RTC memory and the battery history\<close>

record rtc =
  bootCount :: int
  failedUploads :: "32 word"
  batteryHistory :: "real list"
  batteryHistoryIndex :: int
  batteryHistoryFull :: bool
  lastSleepDuration :: nat

text \<open>
  The initialisers of the \<^verbatim>\<open>RTC_DATA_ATTR\<close> variables (power-on reset). The flag
  \<^verbatim>\<open>wifiConfigured\<close>, which only \<open>connectWiFi\<close> uses, is left out.
\<close>

definition rtc_init :: rtc where
  "rtc_init = \<lparr>bootCount = 0, failedUploads = 0,
     batteryHistory = replicate (nat BATTERY_TREND_SAMPLES) 0,
     batteryHistoryIndex = 0, batteryHistoryFull = False,
     lastSleepDuration = SLEEP_DURATION_MINUTES\<rparr>"

text \<open>The C++ remainder \<^verbatim>\<open>a % b\<close> on \<^verbatim>\<open>int\<close>: the sign of the dividend.\<close>

definition c_mod :: "int \<Rightarrow> int \<Rightarrow> int" where
  "c_mod a b = sgn a * (\<bar>a\<bar> mod \<bar>b\<bar>)"

text \<open>Reading \<^verbatim>\<open>batteryHistory[i]\<close>; \<open>None\<close> is an access outside the array.\<close>

definition hist_get :: "rtc \<Rightarrow> int \<Rightarrow> real option" where
  "hist_get s i =
     (if 0 \<le> i \<and> i < int (length (batteryHistory s)) then Some (batteryHistory s ! nat i)
      else None)"

definition updateBatteryHistory :: "rtc \<Rightarrow> real \<Rightarrow> rtc option" where
  "updateBatteryHistory s voltage =
     (if 0 \<le> batteryHistoryIndex s \<and> batteryHistoryIndex s < int (length (batteryHistory s))
      then
        let idx = c_mod (batteryHistoryIndex s + 1) BATTERY_TREND_SAMPLES in
        Some (s\<lparr>batteryHistory := (batteryHistory s)[nat (batteryHistoryIndex s) := voltage],
                batteryHistoryIndex := idx,
                batteryHistoryFull := (if idx = 0 then True else batteryHistoryFull s)\<rparr>)
      else None)"

text \<open>
  The state invariant: the array has its declared size and the write index is inside it.
  It holds initially and \<open>updateBatteryHistory\<close> keeps it.
\<close>

definition rtc_ok :: "rtc \<Rightarrow> bool" where
  "rtc_ok s = (int (length (batteryHistory s)) = BATTERY_TREND_SAMPLES
     \<and> 0 \<le> batteryHistoryIndex s \<and> batteryHistoryIndex s < BATTERY_TREND_SAMPLES)"

subsection \<open>The trend estimator\<close>

text \<open>Line 623: the number of samples the estimator takes as available.\<close>

definition samples :: "rtc \<Rightarrow> int" where
  "samples s = (if batteryHistoryFull s then BATTERY_TREND_SAMPLES else batteryHistoryIndex s)"

text \<open>The loop of lines 629 to 633, from counter \<open>i\<close> with the running sum.\<close>

function recentLoop :: "rtc \<Rightarrow> int \<Rightarrow> int \<Rightarrow> real \<Rightarrow> real option" where
  "recentLoop s recentSamples i recentTrend =
     (if i \<le> recentSamples then
        do {
          cur \<leftarrow> hist_get s (c_mod (batteryHistoryIndex s - 1 - (i - 1) + BATTERY_TREND_SAMPLES)
                    BATTERY_TREND_SAMPLES);
          prev \<leftarrow> hist_get s (c_mod (batteryHistoryIndex s - 1 - i + BATTERY_TREND_SAMPLES)
                    BATTERY_TREND_SAMPLES);
          recentLoop s recentSamples (i + 1) (recentTrend + (cur - prev))
        }
      else Some recentTrend)"
  by pat_completeness auto
termination
  by (relation "measure (\<lambda>(s, n, i, a). nat (n + 1 - i))") auto

text \<open>The loop of lines 638 to 642.\<close>

function overallLoop :: "rtc \<Rightarrow> int \<Rightarrow> int \<Rightarrow> real \<Rightarrow> real option" where
  "overallLoop s n i overallTrend =
     (if i < n then
        do {
          cur \<leftarrow> hist_get s (c_mod (batteryHistoryIndex s - 1 - i + BATTERY_TREND_SAMPLES)
                    BATTERY_TREND_SAMPLES);
          prev \<leftarrow> hist_get s (c_mod (batteryHistoryIndex s - 2 - i + BATTERY_TREND_SAMPLES)
                    BATTERY_TREND_SAMPLES);
          overallLoop s n (i + 1) (overallTrend + (cur - prev))
        }
      else Some overallTrend)"
  by pat_completeness auto
termination
  by (relation "measure (\<lambda>(s, n, i, a). nat (n - i))") auto

declare recentLoop.simps [simp del] overallLoop.simps [simp del]

definition recentTrend :: "rtc \<Rightarrow> real option" where
  "recentTrend s =
     do {
       let recentSamples = min 3 (samples s - 1);
       total \<leftarrow> recentLoop s recentSamples 1 0;
       Some (total / real_of_int recentSamples)
     }"

definition overallTrend :: "rtc \<Rightarrow> real option" where
  "overallTrend s =
     do {
       total \<leftarrow> overallLoop s (samples s) 1 0;
       Some (total / real_of_int (samples s - 1))
     }"

definition isCharging :: "rtc \<Rightarrow> bool option" where
  "isCharging s =
     (if \<not> batteryHistoryFull s \<and> batteryHistoryIndex s < 3 then Some False
      else
        do {
          currentVoltage \<leftarrow> hist_get s
            (c_mod (batteryHistoryIndex s - 1 + BATTERY_TREND_SAMPLES) BATTERY_TREND_SAMPLES);
          recent \<leftarrow> recentTrend s;
          overall \<leftarrow> overallTrend s;
          let voltageRising = (recent > 0.015);
              stableRise = (overall > 0.005);
              voltageInChargingRange = (currentVoltage > 3.8);
              highVoltage = (currentVoltage > 4.1);
              charging = ((voltageRising \<and> stableRise \<and> voltageInChargingRange)
                          \<or> (highVoltage \<and> overall > -0.01))
          in Some charging
        })"

subsection \<open>The sleep interval policy\<close>

text \<open>
  \<open>calculateDynamicSleepTime\<close> reads the history through \<open>isCharging\<close>. The firmware
  has no tier type: the branch a call takes shows only in its log line. \<open>sleepPolicy\<close>
  is the body of the function with that branch recorded next to the result
  (\<open>Charging\<close>: "Charging detected", \<open>Scaling\<close>: "Battery scaling", the linear
  interpolation, \<open>Good\<close>: "Good battery"); \<open>calculateDynamicSleepTime\<close> is its second
  component. The conversion of the interpolated \<^verbatim>\<open>float\<close> to \<^verbatim>\<open>uint32_t\<close> truncates.
\<close>

datatype branch = UVLO | Critical | Charging | Scaling | Good

definition sleepPolicy :: "rtc \<Rightarrow> real \<Rightarrow> int \<Rightarrow> (branch \<times> nat) option" where
  "sleepPolicy s batteryVoltage lightLevel =
     (if batteryVoltage \<le> BATTERY_UVLO_VOLTAGE then Some (UVLO, UVLO_SLEEP_MINUTES)
      else if batteryVoltage \<le> BATTERY_CRITICAL_VOLTAGE
        then Some (Critical, CRITICAL_SLEEP_MINUTES)
      else
        do {
          let highLight = (lightLevel > CHARGING_LIGHT_THRESHOLD);
          chargingDetected \<leftarrow> isCharging s;
          let voltageIndicatesCharging = (batteryVoltage > CHARGING_DETECT_VOLTAGE);
              chargingConditions = (chargingDetected
                \<or> (highLight \<and> batteryVoltage > 3.9)
                \<or> (voltageIndicatesCharging \<and> batteryVoltage > 4.1));
              (taken, sleepMinutes) =
                (if chargingConditions then (Charging, MIN_SLEEP_MINUTES)
                 else if batteryVoltage < BATTERY_LOW_VOLTAGE then
                   let voltageRange = BATTERY_MAX_VOLTAGE - BATTERY_LOW_VOLTAGE;
                       voltageRatio = (batteryVoltage - BATTERY_LOW_VOLTAGE) / voltageRange;
                       voltageRatio = max 0 (min 1 voltageRatio)
                   in (Scaling, nat \<lfloor>real MAX_SLEEP_MINUTES
                         - real (MAX_SLEEP_MINUTES - MIN_SLEEP_MINUTES) * voltageRatio\<rfloor>)
                 else (Good, MIN_SLEEP_MINUTES))
          in Some (taken, max MIN_SLEEP_MINUTES (min MAX_SLEEP_MINUTES sleepMinutes))
        })"

definition calculateDynamicSleepTime :: "rtc \<Rightarrow> real \<Rightarrow> int \<Rightarrow> nat option" where
  "calculateDynamicSleepTime s batteryVoltage lightLevel =
     map_option snd (sleepPolicy s batteryVoltage lightLevel)"

subsection \<open>The upload pipeline\<close>

record SensorData =
  temperature :: real
  humidity :: real
  batteryVoltage :: real
  lightLevel :: int
  moistureLevel :: int
  moisturePercent :: real
  timestamp :: nat
  lowBattery :: bool

text \<open>
  What a wake cycle gets from outside: the outcome of \<open>readSensors\<close> (\<open>None\<close> when it
  returns false), of \<open>connectWiFi\<close>, the status code \<^verbatim>\<open>http.POST\<close> returns on each
  attempt, and the values of \<^verbatim>\<open>WiFi.macAddress()\<close>, \<^verbatim>\<open>millis()\<close> and \<^verbatim>\<open>WiFi.RSSI()\<close> read
  by \<open>uploadData\<close>. \<open>USE_HTTPS\<close> is the macro of the build (credentials.h).
\<close>

record env =
  sensors :: "SensorData option"
  wifi :: bool
  httpResponse :: "int \<Rightarrow> int"
  macAddress :: string
  millis :: nat
  rssi :: int
  USE_HTTPS :: bool

datatype json = JString string | JInt int | JFloat real | JBool bool

type_synonym payload = "(string \<times> json) list"

datatype event =
    ConnectWiFi
  | HttpPost payload
  | Delay nat
  | WiFiOff
  | DeepSleep nat

text \<open>
  The retry loop of lines 462 to 502, from attempt number \<open>attempt\<close>, with the events so
  far. Every attempt posts the one serialised document.
\<close>

function uploadLoop :: "env \<Rightarrow> payload \<Rightarrow> int \<Rightarrow> event list \<Rightarrow> bool \<times> event list" where
  "uploadLoop e jsonString attempt done =
     (if attempt \<le> MAX_RETRIES then
        let httpResponseCode = httpResponse e attempt;
            done = done @ [HttpPost jsonString]
        in if httpResponseCode = 200 then (True, done)
           else uploadLoop e jsonString (attempt + 1)
                  (if attempt = 1 \<and> attempt < MAX_RETRIES
                   then done @ [Delay (if USE_HTTPS e then CLOUD_WAKEUP_DELAY_MS else 2000)]
                   else done)
      else (False, done))"
  by pat_completeness auto
termination
  by (relation "measure (\<lambda>(e, p, attempt, done). nat (MAX_RETRIES + 1 - attempt))") auto

declare uploadLoop.simps [simp del]

text \<open>\<^verbatim>\<open>doc[key] = value\<close> of ArduinoJson: a member is replaced in place or added last.\<close>

definition json_set :: "payload \<Rightarrow> string \<Rightarrow> json \<Rightarrow> payload" where
  "json_set doc key v = AList.update key v doc"

text \<open>Lines 439 to 457 of \<open>uploadData\<close>: the document that is serialised once.\<close>

definition buildPayload :: "env \<Rightarrow> rtc \<Rightarrow> SensorData \<Rightarrow> nat \<Rightarrow> payload option" where
  "buildPayload e s data sleepMinutes =
     do {
       let doc = [];
       let doc = json_set doc ''device_id'' (JString (macAddress e));
       let doc = json_set doc ''timestamp'' (JInt (int (millis e)));
       let doc = json_set doc ''temperature'' (JFloat (temperature data));
       let doc = json_set doc ''humidity'' (JFloat (humidity data));
       let doc = json_set doc ''battery_voltage'' (JFloat (batteryVoltage data));
       let doc = json_set doc ''light_level'' (JInt (lightLevel data));
       let doc = json_set doc ''moisture_level'' (JInt (moistureLevel data));
       let doc = json_set doc ''moisture_percent'' (JFloat (moisturePercent data));
       let doc = json_set doc ''boot_count'' (JInt (bootCount s));
       let doc = json_set doc ''rssi'' (JInt (rssi e));
       let doc = json_set doc ''low_battery'' (JBool (lowBattery data));
       let doc = json_set doc ''sleep_minutes'' (JInt (int sleepMinutes));
       charging \<leftarrow> isCharging s;
       let doc = json_set doc ''charging'' (JBool charging);
       Some doc
     }"

definition uploadData :: "env \<Rightarrow> rtc \<Rightarrow> SensorData \<Rightarrow> nat \<Rightarrow> (bool \<times> event list) option" where
  "uploadData e s data sleepMinutes =
     do {
       jsonString \<leftarrow> buildPayload e s data sleepMinutes;
       Some (uploadLoop e jsonString 1 [])
     }"

subsection \<open>The wake cycle\<close>

text \<open>
  The body of \<^verbatim>\<open>setup()\<close>, here \<open>setupCycle\<close> (\<open>setup\<close> is a command of Isabelle).
  \<open>enterDeepSleep\<close> does not return, so each call of it ends the cycle with the event
  \<open>DeepSleep\<close> (microseconds). The result is the RTC memory the next cycle wakes up
  with and the events of this cycle.
\<close>

definition setupCycle :: "env \<Rightarrow> rtc \<Rightarrow> (rtc \<times> event list) option" where
  "setupCycle e s0 =
     (let s = s0\<lparr>bootCount := bootCount s0 + 1\<rparr> in
      case sensors e of
        None \<Rightarrow> Some (s, [DeepSleep SLEEP_DURATION_US])
      | Some sensorData \<Rightarrow>
          do {
            s \<leftarrow> updateBatteryHistory s (batteryVoltage sensorData);
            sleepMinutes \<leftarrow>
              calculateDynamicSleepTime s (batteryVoltage sensorData) (lightLevel sensorData);
            let s = s\<lparr>lastSleepDuration := sleepMinutes\<rparr>;
            if batteryVoltage sensorData \<le> BATTERY_UVLO_VOLTAGE
              then Some (s, [DeepSleep (UVLO_SLEEP_HOURS * 60 * 60 * 1000000)])
            else if batteryVoltage sensorData < BATTERY_CRITICAL_VOLTAGE
              then Some (s, [DeepSleep (CRITICAL_BATTERY_SLEEP_HOURS * 60 * 60 * 1000000)])
            else if batteryVoltage sensorData \<le> BATTERY_UVLO_VOLTAGE
              then Some (s, [DeepSleep (UVLO_SLEEP_HOURS * 60 * 60 * 1000000)])
            else
              do {
                (s, done) \<leftarrow>
                  (if wifi e then
                     do {
                       (ok, posts) \<leftarrow> uploadData e s sensorData sleepMinutes;
                       Some (if ok then s\<lparr>failedUploads := 0\<rparr>
                             else s\<lparr>failedUploads := failedUploads s + 1\<rparr>,
                             [ConnectWiFi] @ posts @ [WiFiOff])
                     }
                   else Some (s\<lparr>failedUploads := failedUploads s + 1\<rparr>, [ConnectWiFi]));
                charging \<leftarrow> isCharging s;
                Some (s, done @ [DeepSleep (sleepMinutes * 60 * 1000000)])
              }
          })"

subsection \<open>Runs of cycles and the stored samples\<close>

text \<open>One \<open>updateBatteryHistory\<close> per wake cycle, for the readings \<open>vs\<close> in order.\<close>

fun appendAll :: "rtc \<Rightarrow> real list \<Rightarrow> rtc option" where
  "appendAll s [] = Some s"
| "appendAll s (v # vs) = do { s' \<leftarrow> updateBatteryHistory s v; appendAll s' vs }"

text \<open>
  The samples the buffer holds, oldest first: the slots below the write index while the
  buffer has not wrapped, the whole array from the write index round once it has. The
  newest sample is the slot before the write index, and the indices \<open>isCharging\<close>
  computes reach the samples in this order, newest first (\<open>stored_nth_newest\<close> below).
\<close>

definition stored :: "rtc \<Rightarrow> real list" where
  "stored s =
     (if batteryHistoryFull s
      then drop (nat (batteryHistoryIndex s)) (batteryHistory s)
             @ take (nat (batteryHistoryIndex s)) (batteryHistory s)
      else take (nat (batteryHistoryIndex s)) (batteryHistory s))"

text \<open>The last \<open>n\<close> elements of a list (all of it when it is shorter).\<close>

definition last_n :: "nat \<Rightarrow> 'a list \<Rightarrow> 'a list" where
  "last_n n xs = drop (length xs - n) xs"

text \<open>
  The overall slope as the specification words it: the mean of the consecutive deltas
  \<open>sample[k] - sample[k-1]\<close> of the samples ordered oldest to newest.
\<close>

fun deltas :: "real list \<Rightarrow> real list" where
  "deltas (a # b # xs) = (b - a) # deltas (b # xs)"
| "deltas _ = []"

definition spec_overall_slope :: "real list \<Rightarrow> real" where
  "spec_overall_slope xs = sum_list (deltas xs) / real (length xs - 1)"

text \<open>The events of a cycle that touch the network.\<close>

fun is_post :: "event \<Rightarrow> bool" where
  "is_post (HttpPost p) = True"
| "is_post _ = False"

fun uses_radio :: "event \<Rightarrow> bool" where
  "uses_radio ConnectWiFi = True"
| "uses_radio (HttpPost p) = True"
| "uses_radio _ = False"

text \<open>
  The slot \<open>isCharging\<close> addresses as \<^verbatim>\<open>(batteryHistoryIndex - 1 - k + 10) % 10\<close> when that
  index is not negative: \<open>k\<close> steps back from the newest sample.
\<close>

definition slot_back :: "rtc \<Rightarrow> int \<Rightarrow> real" where
  "slot_back s k = batteryHistory s ! nat ((batteryHistoryIndex s + 9 - k) mod 10)"

subsection \<open>Readings are binary32 values\<close>

text \<open>
  \<^verbatim>\<open>SensorData.batteryVoltage\<close> is a \<^verbatim>\<open>float\<close>: a finite reading is \<open>m * 2^e\<close> with a
  significand \<open>m\<close> below \<open>2^24\<close> in absolute value and an exponent \<open>e\<close> from -149 to 104.
  The literal \<^verbatim>\<open>3.7\<close> of the header is a \<^verbatim>\<open>double\<close>, \<open>double_3_7\<close>, and the reading is
  converted to \<^verbatim>\<open>double\<close> exactly before it is compared.
\<close>

definition binary32 :: "int \<Rightarrow> int \<Rightarrow> real" where
  "binary32 m e = (if 0 \<le> e then real_of_int m * 2 ^ nat e else real_of_int m / 2 ^ nat (- e))"

definition is_binary32 :: "real \<Rightarrow> bool" where
  "is_binary32 x = (\<exists>m e. \<bar>m\<bar> < 2 ^ 24 \<and> - 149 \<le> e \<and> e \<le> 104 \<and> x = binary32 m e)"

definition double_3_7 :: real where
  "double_3_7 = 4165829655317709 / 2 ^ 50"

subsection \<open>Example inputs\<close>

text \<open>
  A reading with battery voltage \<open>v\<close> (the other fields as \<open>readSensors\<close> would fill
  them: moisture 1300 is 100 percent, the low-battery flag is
  \<open>v < BATTERY_LOW_VOLTAGE \<and> v > BATTERY_UVLO_VOLTAGE\<close>), and a cycle that gets this
  reading, the WiFi outcome \<open>w\<close> and the HTTP status codes \<open>r\<close>.
\<close>

definition example_data :: "real \<Rightarrow> SensorData" where
  "example_data v = \<lparr>temperature = 21.5, humidity = 40, batteryVoltage = v, lightLevel = 100,
     moistureLevel = 1300, moisturePercent = 100, timestamp = 1000,
     lowBattery = (v < BATTERY_LOW_VOLTAGE \<and> v > BATTERY_UVLO_VOLTAGE)\<rparr>"

definition example_env :: "real \<Rightarrow> bool \<Rightarrow> (int \<Rightarrow> int) \<Rightarrow> env" where
  "example_env v w r = \<lparr>sensors = Some (example_data v), wifi = w, httpResponse = r,
     macAddress = ''AA:BB:CC:DD:EE:FF'', millis = 3000, rssi = - 60, USE_HTTPS = True\<rparr>"

section \<open>Properties\<close>

subsection \<open>The ring buffer\<close>

lemma c_mod_nonneg: "0 \<le> a \<Longrightarrow> c_mod a b = a mod \<bar>b\<bar>"
  by (cases "a = 0") (simp_all add: c_mod_def)

lemma rtc_ok_init: "rtc_ok rtc_init"
  by (simp add: rtc_ok_def rtc_init_def BATTERY_TREND_SAMPLES_def)

lemma update_ok:
  assumes "rtc_ok s"
  shows "\<exists>s'. updateBatteryHistory s v = Some s' \<and> rtc_ok s'
     \<and> batteryHistoryIndex s' = (batteryHistoryIndex s + 1) mod BATTERY_TREND_SAMPLES
     \<and> batteryHistoryFull s' = (batteryHistoryFull s \<or> batteryHistoryIndex s' = 0)
     \<and> batteryHistory s' = (batteryHistory s)[nat (batteryHistoryIndex s) := v]
     \<and> failedUploads s' = failedUploads s \<and> bootCount s' = bootCount s
     \<and> lastSleepDuration s' = lastSleepDuration s"
  using assms
  by (auto simp: rtc_ok_def updateBatteryHistory_def Let_def c_mod_nonneg BATTERY_TREND_SAMPLES_def)

lemma take_Suc_update: "n < length xs \<Longrightarrow> take (Suc n) (xs[n := v]) = take n xs @ [v]"
  by (simp add: take_Suc_conv_app_nth)

lemma ring_push:
  assumes "n < length xs"
  shows "drop (Suc n mod length xs) (xs[n := v]) @ take (Suc n mod length xs) (xs[n := v])
         = tl (drop n xs @ take n xs) @ [v]"
proof (cases "Suc n = length xs")
  case True
  then have "xs[n := v] = take n xs @ [v]"
    using assms by (simp add: upd_conv_take_nth_drop)
  moreover have "tl (drop n xs @ take n xs) = take n xs"
    using True assms by (simp add: tl_append2 tl_drop drop_Suc [symmetric])
  ultimately show ?thesis using True by simp
next
  case False
  then have lt: "Suc n < length xs" using assms by simp
  then have "Suc n mod length xs = Suc n" by simp
  moreover have "tl (drop n xs @ take n xs) = drop (Suc n) xs @ take n xs"
    using assms by (simp add: tl_append2 tl_drop drop_Suc [symmetric])
  ultimately show ?thesis using assms by (simp add: take_Suc_update)
qed

lemma stored_step:
  assumes "rtc_ok s" and "updateBatteryHistory s v = Some s'"
  shows "stored s' = (if length (stored s) < nat BATTERY_TREND_SAMPLES then stored s @ [v]
                      else tl (stored s) @ [v])"
proof -
  define n where "n = nat (batteryHistoryIndex s)"
  define h where "h = batteryHistory s"
  have len: "length h = 10" and n: "n < 10" and idx: "batteryHistoryIndex s = int n"
    using assms(1) by (auto simp: rtc_ok_def n_def h_def BATTERY_TREND_SAMPLES_def)
  have e: "(int n + 1) mod 10 = int (Suc n mod 10)"
    by (simp add: zmod_int add.commute)
  from update_ok [OF assms(1), of v] assms(2)
  have a: "batteryHistoryIndex s' = (batteryHistoryIndex s + 1) mod BATTERY_TREND_SAMPLES"
    and b: "batteryHistoryFull s' = (batteryHistoryFull s \<or> batteryHistoryIndex s' = 0)"
    and h': "batteryHistory s' = h[n := v]"
    by (auto simp: h_def n_def)
  have i': "batteryHistoryIndex s' = int (Suc n mod 10)"
    using a e by (simp add: idx BATTERY_TREND_SAMPLES_def)
  have f': "batteryHistoryFull s' = (batteryHistoryFull s \<or> Suc n mod 10 = 0)"
    using b i' by simp
  have ni': "nat (batteryHistoryIndex s') = Suc n mod 10"
    by (simp only: i' nat_int)
  show ?thesis
  proof (cases "batteryHistoryFull s")
    case True
    then show ?thesis
      using ring_push [of n h v] len n ni' f' h'
      by (simp add: stored_def idx h_def [symmetric] BATTERY_TREND_SAMPLES_def)
  next
    case False
    show ?thesis
    proof (cases "Suc n = 10")
      case True
      then show ?thesis
        using False len n ni' f' h'
        by (simp add: stored_def idx h_def [symmetric] BATTERY_TREND_SAMPLES_def
            upd_conv_take_nth_drop)
    next
      case False
      then have "Suc n mod 10 = Suc n" using n by simp
      then show ?thesis
        using \<open>\<not> batteryHistoryFull s\<close> len n ni' f' h'
        by (simp add: stored_def idx h_def [symmetric] BATTERY_TREND_SAMPLES_def take_Suc_update)
    qed
  qed
qed



lemma length_stored: "rtc_ok s \<Longrightarrow> length (stored s) \<le> 10"
  by (auto simp: stored_def rtc_ok_def BATTERY_TREND_SAMPLES_def)

lemma length_stored_eq:
  "rtc_ok s \<Longrightarrow> int (length (stored s)) = samples s"
  by (auto simp: stored_def rtc_ok_def samples_def BATTERY_TREND_SAMPLES_def)

lemma stored_step_last_n:
  assumes "rtc_ok s" and "updateBatteryHistory s v = Some s'"
  shows "stored s' = last_n 10 (stored s @ [v])"
proof (cases "length (stored s) < 10")
  case True
  then show ?thesis
    using stored_step [OF assms] by (simp add: last_n_def BATTERY_TREND_SAMPLES_def)
next
  case False
  then have len: "length (stored s) = 10"
    using length_stored [OF assms(1)] by simp
  then have "stored s \<noteq> []" by auto
  then have "drop (Suc 0) (stored s) = tl (stored s)"
    by (simp add: drop_Suc)
  then show ?thesis
    using stored_step [OF assms] len by (simp add: last_n_def BATTERY_TREND_SAMPLES_def)
qed

lemma last_n_last_n: "last_n n (last_n n xs @ ys) = last_n n (xs @ ys)"
  by (cases "length xs \<le> n") (auto simp: last_n_def add.commute)

lemma appendAll_ok:
  assumes "rtc_ok s"
  shows "\<exists>s'. appendAll s vs = Some s' \<and> rtc_ok s'
     \<and> stored s' = last_n 10 (stored s @ vs)
     \<and> batteryHistoryIndex s' = (batteryHistoryIndex s + int (length vs)) mod 10
     \<and> batteryHistoryFull s' = (batteryHistoryFull s \<or> 10 \<le> batteryHistoryIndex s + int (length vs))
     \<and> failedUploads s' = failedUploads s"
  using assms
proof (induction vs arbitrary: s)
  case Nil
  then show ?case
    using length_stored [of s] by (simp add: last_n_def rtc_ok_def BATTERY_TREND_SAMPLES_def)
next
  case (Cons v vs)
  from update_ok [OF Cons.prems, of v, unfolded BATTERY_TREND_SAMPLES_def] obtain s1 where
    u: "updateBatteryHistory s v = Some s1" and ok1: "rtc_ok s1"
    and i1: "batteryHistoryIndex s1 = (batteryHistoryIndex s + 1) mod 10"
    and f1: "batteryHistoryFull s1 = (batteryHistoryFull s \<or> batteryHistoryIndex s1 = 0)"
    and fu1: "failedUploads s1 = failedUploads s"
    by blast
  from Cons.IH [OF ok1] obtain s' where
    a: "appendAll s1 vs = Some s'" and ok': "rtc_ok s'"
    and st: "stored s' = last_n 10 (stored s1 @ vs)"
    and i': "batteryHistoryIndex s' = (batteryHistoryIndex s1 + int (length vs)) mod 10"
    and f': "batteryHistoryFull s' = (batteryHistoryFull s1 \<or> 10 \<le> batteryHistoryIndex s1 + int (length vs))"
    and fu': "failedUploads s' = failedUploads s1"
    by blast
  have rng: "0 \<le> batteryHistoryIndex s" "batteryHistoryIndex s < 10"
    using Cons.prems by (auto simp: rtc_ok_def BATTERY_TREND_SAMPLES_def)
  have "appendAll s (v # vs) = Some s'" using u a by simp
  moreover have "stored s' = last_n 10 (stored s @ v # vs)"
    using st stored_step_last_n [OF Cons.prems u] last_n_last_n [of 10 "stored s @ [v]" vs]
    by simp
  moreover have "batteryHistoryIndex s' = (batteryHistoryIndex s + int (length (v # vs))) mod 10"
  proof -
    have "((batteryHistoryIndex s + 1) mod 10 + int (length vs)) mod 10
        = (batteryHistoryIndex s + 1 + int (length vs)) mod 10"
      by (rule mod_add_left_eq)
    then show ?thesis using i' i1 by (simp add: add.assoc)
  qed
  moreover have "batteryHistoryFull s'
      = (batteryHistoryFull s \<or> 10 \<le> batteryHistoryIndex s + int (length (v # vs)))"
  proof (cases "batteryHistoryIndex s = 9")
    case True
    then show ?thesis using f' f1 i1 by simp
  next
    case False
    then have "(batteryHistoryIndex s + 1) mod 10 = batteryHistoryIndex s + 1"
      using rng by simp
    then show ?thesis using f' f1 i1 rng by auto
  qed
  ultimately show ?case using ok' fu' fu1 by simp
qed

lemma stored_init: "stored rtc_init = []"
  by (simp add: stored_def rtc_init_def)

lemma appendAll_init:
  "\<exists>s'. appendAll rtc_init vs = Some s' \<and> rtc_ok s'
     \<and> stored s' = last_n 10 vs
     \<and> batteryHistoryIndex s' = int (length vs) mod 10
     \<and> batteryHistoryFull s' = (10 \<le> length vs)
     \<and> failedUploads s' = 0"
  using appendAll_ok [OF rtc_ok_init, of vs]
  by (simp add: stored_init) (simp add: rtc_init_def)

text \<open>
  Claim C5. From any valid state, after \<open>N + 1 = 11\<close> appended samples the buffer holds
  exactly the last \<open>N = 10\<close> of them, oldest first: the first one appended has been
  evicted, the buffer is full, and the write index has advanced by 11 modulo 10. Every
  single append advances the write index by one modulo \<open>N\<close>, sets the full flag exactly
  when the index wraps to 0 (and never clears it), keeps the last \<open>N\<close> of the old
  samples followed by the new one, and leaves at most \<open>N\<close> samples stored. Started at
  power-on, after any readings \<open>ws\<close> the buffer holds the last \<open>N\<close> of them and is full
  exactly when at least \<open>N\<close> have been appended.
\<close>

theorem ring_buffer_keeps_last_N:
  assumes "rtc_ok s" and "length vs = nat BATTERY_TREND_SAMPLES + 1"
  shows "(\<exists>s'. appendAll s vs = Some s' \<and> rtc_ok s'
            \<and> stored s' = tl vs
            \<and> length (stored s') = nat BATTERY_TREND_SAMPLES
            \<and> batteryHistoryFull s'
            \<and> batteryHistoryIndex s' = (batteryHistoryIndex s + 1) mod BATTERY_TREND_SAMPLES)
       \<and> (\<forall>v. \<exists>s1. updateBatteryHistory s v = Some s1 \<and> rtc_ok s1
            \<and> batteryHistoryIndex s1 = (batteryHistoryIndex s + 1) mod BATTERY_TREND_SAMPLES
            \<and> batteryHistoryFull s1 = (batteryHistoryFull s \<or> batteryHistoryIndex s1 = 0)
            \<and> stored s1 = last_n (nat BATTERY_TREND_SAMPLES) (stored s @ [v])
            \<and> length (stored s1) \<le> nat BATTERY_TREND_SAMPLES)
       \<and> (\<forall>ws. \<exists>t. appendAll rtc_init ws = Some t
            \<and> stored t = last_n (nat BATTERY_TREND_SAMPLES) ws
            \<and> batteryHistoryIndex t = int (length ws) mod BATTERY_TREND_SAMPLES
            \<and> batteryHistoryFull t = (nat BATTERY_TREND_SAMPLES \<le> length ws))"
proof (intro conjI allI)
  have len: "length vs = 11" using assms(2) by (simp add: BATTERY_TREND_SAMPLES_def)
  from appendAll_ok [OF assms(1), of vs] obtain s' where
    a: "appendAll s vs = Some s'" and ok: "rtc_ok s'"
    and st: "stored s' = last_n 10 (stored s @ vs)"
    and i: "batteryHistoryIndex s' = (batteryHistoryIndex s + int (length vs)) mod 10"
    and f: "batteryHistoryFull s' = (batteryHistoryFull s \<or> 10 \<le> batteryHistoryIndex s + int (length vs))"
    by blast
  have rng: "0 \<le> batteryHistoryIndex s"
    using assms(1) by (simp add: rtc_ok_def)
  have "vs \<noteq> []" using len by auto
  then have st': "stored s' = tl vs"
    using st len by (simp add: last_n_def drop_Suc)
  have "(batteryHistoryIndex s + 11) mod 10 = (batteryHistoryIndex s + 1 + 10) mod 10"
    by (simp add: add.commute)
  also have "\<dots> = (batteryHistoryIndex s + 1) mod 10"
    by (simp only: mod_add_self2)
  finally have "(batteryHistoryIndex s + 11) mod 10 = (batteryHistoryIndex s + 1) mod 10" .
  then have i': "batteryHistoryIndex s' = (batteryHistoryIndex s + 1) mod BATTERY_TREND_SAMPLES"
    using i len by (simp add: BATTERY_TREND_SAMPLES_def)
  have f': "batteryHistoryFull s'" using f rng len by simp
  have "length (stored s') = nat BATTERY_TREND_SAMPLES"
    using st' len by (simp add: BATTERY_TREND_SAMPLES_def)
  then show "\<exists>s'. appendAll s vs = Some s' \<and> rtc_ok s'
            \<and> stored s' = tl vs
            \<and> length (stored s') = nat BATTERY_TREND_SAMPLES
            \<and> batteryHistoryFull s'
            \<and> batteryHistoryIndex s' = (batteryHistoryIndex s + 1) mod BATTERY_TREND_SAMPLES"
    using a ok st' i' f' by blast
next
  fix v
  from update_ok [OF assms(1), of v] obtain s1 where
    u: "updateBatteryHistory s v = Some s1" and ok1: "rtc_ok s1"
    and i1: "batteryHistoryIndex s1 = (batteryHistoryIndex s + 1) mod BATTERY_TREND_SAMPLES"
    and f1: "batteryHistoryFull s1 = (batteryHistoryFull s \<or> batteryHistoryIndex s1 = 0)"
    by blast
  have "stored s1 = last_n (nat BATTERY_TREND_SAMPLES) (stored s @ [v])"
    using stored_step_last_n [OF assms(1) u] by (simp add: BATTERY_TREND_SAMPLES_def)
  moreover have "length (stored s1) \<le> nat BATTERY_TREND_SAMPLES"
    using length_stored [OF ok1] by (simp add: BATTERY_TREND_SAMPLES_def)
  ultimately show "\<exists>s1. updateBatteryHistory s v = Some s1 \<and> rtc_ok s1
            \<and> batteryHistoryIndex s1 = (batteryHistoryIndex s + 1) mod BATTERY_TREND_SAMPLES
            \<and> batteryHistoryFull s1 = (batteryHistoryFull s \<or> batteryHistoryIndex s1 = 0)
            \<and> stored s1 = last_n (nat BATTERY_TREND_SAMPLES) (stored s @ [v])
            \<and> length (stored s1) \<le> nat BATTERY_TREND_SAMPLES"
    using u ok1 i1 f1 by blast
next
  fix ws
  show "\<exists>t. appendAll rtc_init ws = Some t
            \<and> stored t = last_n (nat BATTERY_TREND_SAMPLES) ws
            \<and> batteryHistoryIndex t = int (length ws) mod BATTERY_TREND_SAMPLES
            \<and> batteryHistoryFull t = (nat BATTERY_TREND_SAMPLES \<le> length ws)"
    using appendAll_init [of ws] by (auto simp: BATTERY_TREND_SAMPLES_def)
qed

theorem ring_buffer_keeps_last_N_witness:
  "rtc_ok rtc_init \<and> length [1, 2, 3, 4, 5, 6, 7, 8, 9, 10, 11 :: real] = nat BATTERY_TREND_SAMPLES + 1
   \<and> (\<exists>s'. appendAll rtc_init [1, 2, 3, 4, 5, 6, 7, 8, 9, 10, 11] = Some s'
         \<and> stored s' = [2, 3, 4, 5, 6, 7, 8, 9, 10, 11]
         \<and> batteryHistoryFull s' \<and> batteryHistoryIndex s' = 1)"
proof -
  have l: "length [1, 2, 3, 4, 5, 6, 7, 8, 9, 10, 11 :: real] = nat BATTERY_TREND_SAMPLES + 1"
    by (simp add: BATTERY_TREND_SAMPLES_def)
  have i: "batteryHistoryIndex rtc_init = 0" by (simp add: rtc_init_def)
  from ring_buffer_keeps_last_N [OF rtc_ok_init l]
  show ?thesis using rtc_ok_init l by (auto simp: i BATTERY_TREND_SAMPLES_def)
qed

subsection \<open>The trend estimator\<close>

text \<open>
  Claim C6. With fewer than 3 samples in the history (\<open>samples\<close>, the count of line
  623, which is the number of stored samples in a valid state: \<open>length_stored_eq\<close>)
  \<open>isCharging\<close> returns false.
\<close>

theorem isCharging_insufficient: "samples s < 3 \<Longrightarrow> isCharging s = Some False"
  by (simp add: samples_def isCharging_def BATTERY_TREND_SAMPLES_def split: if_splits)

theorem isCharging_insufficient_witness:
  "\<exists>s. appendAll rtc_init [4.15, 4.16] = Some s \<and> samples s < 3 \<and> isCharging s = Some False"
proof -
  from appendAll_init [of "[4.15, 4.16]"] obtain s where
    a: "appendAll rtc_init [4.15, 4.16] = Some s"
    and i: "batteryHistoryIndex s = 2" and f: "\<not> batteryHistoryFull s"
    by auto
  have h: "samples s < 3" using i f by (simp add: samples_def)
  show ?thesis using a h isCharging_insufficient [OF h] by blast
qed

text \<open>
  Where the estimator reads. In a valid state every read of \<open>recentLoop\<close> is inside
  the array. The reads of \<open>overallLoop\<close> are one slot further back than those of
  \<open>recentLoop\<close>: with a full buffer and the write index at 0 the last one is
  \<^verbatim>\<open>batteryHistory[-1]\<close>, since \<^verbatim>\<open>(0 - 2 - 9 + 10) % 10\<close> is \<open>-1\<close> in C++.
\<close>

lemma hist_get_in:
  assumes "rtc_ok s" and "0 \<le> x"
  shows "hist_get s (c_mod x BATTERY_TREND_SAMPLES) = Some (batteryHistory s ! nat (x mod 10))"
proof -
  have "0 \<le> x mod 10" "x mod 10 < 10" by simp_all
  then show ?thesis
    using assms by (simp add: hist_get_def c_mod_nonneg rtc_ok_def BATTERY_TREND_SAMPLES_def)
qed

lemma hist_get_neg:
  assumes "- 10 < x" and "x < 0"
  shows "hist_get s (c_mod x BATTERY_TREND_SAMPLES) = None"
proof -
  have "\<bar>x\<bar> mod 10 = - x" using assms by simp
  then have "c_mod x BATTERY_TREND_SAMPLES = x"
    using assms by (simp add: c_mod_def BATTERY_TREND_SAMPLES_def)
  then show ?thesis using assms by (simp add: hist_get_def)
qed

lemma recentLoop_defined:
  assumes "rtc_ok s" and "n \<le> 9" and "1 \<le> i"
  shows "\<exists>r. recentLoop s n i a = Some r"
  using assms
proof (induction s n i a rule: recentLoop.induct)
  case (1 s n i a)
  show ?case
  proof (cases "i \<le> n")
    case False
    then show ?thesis by (simp add: recentLoop.simps [of s n i a])
  next
    case True
    have ok: "rtc_ok s" by (rule "1.prems"(1))
    have rng: "0 \<le> batteryHistoryIndex s" using ok by (simp add: rtc_ok_def)
    have c: "0 \<le> batteryHistoryIndex s - 1 - (i - 1) + BATTERY_TREND_SAMPLES"
      and p: "0 \<le> batteryHistoryIndex s - 1 - i + BATTERY_TREND_SAMPLES"
      using True "1.prems" rng by (simp_all add: BATTERY_TREND_SAMPLES_def)
    obtain cv where cv: "hist_get s (c_mod (batteryHistoryIndex s - 1 - (i - 1) + BATTERY_TREND_SAMPLES)
        BATTERY_TREND_SAMPLES) = Some cv"
      using hist_get_in [OF ok c] by blast
    obtain pv where pv: "hist_get s (c_mod (batteryHistoryIndex s - 1 - i + BATTERY_TREND_SAMPLES)
        BATTERY_TREND_SAMPLES) = Some pv"
      using hist_get_in [OF ok p] by blast
    have "\<exists>r. recentLoop s n (i + 1) (a + (cv - pv)) = Some r"
      using "1.IH" [OF True cv pv ok] "1.prems" by simp
    then show ?thesis
      using True cv pv by (simp add: recentLoop.simps [of s n i a])
  qed
qed

lemma overallLoop_defined:
  assumes "rtc_ok s" and "n \<le> batteryHistoryIndex s + 9" and "1 \<le> i"
  shows "\<exists>r. overallLoop s n i a = Some r"
  using assms
proof (induction s n i a rule: overallLoop.induct)
  case (1 s n i a)
  show ?case
  proof (cases "i < n")
    case False
    then show ?thesis by (simp add: overallLoop.simps [of s n i a])
  next
    case True
    have ok: "rtc_ok s" by (rule "1.prems"(1))
    have rng: "0 \<le> batteryHistoryIndex s" using ok by (simp add: rtc_ok_def)
    have c: "0 \<le> batteryHistoryIndex s - 1 - i + BATTERY_TREND_SAMPLES"
      and p: "0 \<le> batteryHistoryIndex s - 2 - i + BATTERY_TREND_SAMPLES"
      using True "1.prems" rng by (simp_all add: BATTERY_TREND_SAMPLES_def)
    obtain cv where cv: "hist_get s (c_mod (batteryHistoryIndex s - 1 - i + BATTERY_TREND_SAMPLES)
        BATTERY_TREND_SAMPLES) = Some cv"
      using hist_get_in [OF ok c] by blast
    obtain pv where pv: "hist_get s (c_mod (batteryHistoryIndex s - 2 - i + BATTERY_TREND_SAMPLES)
        BATTERY_TREND_SAMPLES) = Some pv"
      using hist_get_in [OF ok p] by blast
    have "\<exists>r. overallLoop s n (i + 1) (a + (cv - pv)) = Some r"
      using "1.IH" [OF True cv pv ok] "1.prems" by simp
    then show ?thesis
      using True cv pv by (simp add: overallLoop.simps [of s n i a])
  qed
qed

lemma overallLoop_out_of_bounds:
  assumes "batteryHistoryIndex s = 0" and "i \<le> 9"
  shows "overallLoop s 10 i a = None"
  using assms
proof (induction s "10 :: int" i a rule: overallLoop.induct)
  case (1 s i a)
  have lt: "i < 10" using "1.prems" by simp
  show ?case
  proof (cases "i = 9")
    case True
    have "hist_get s (c_mod (batteryHistoryIndex s - 2 - i + BATTERY_TREND_SAMPLES)
        BATTERY_TREND_SAMPLES) = None"
      using True "1.prems" by (intro hist_get_neg) (simp_all add: BATTERY_TREND_SAMPLES_def)
    then show ?thesis
      using lt by (simp add: overallLoop.simps [of s 10 i a] split: bind_splits)
  next
    case False
    then have "\<And>cv pv. hist_get s (c_mod (batteryHistoryIndex s - 1 - i + BATTERY_TREND_SAMPLES)
        BATTERY_TREND_SAMPLES) = Some cv \<Longrightarrow> hist_get s (c_mod (batteryHistoryIndex s - 2 - i + BATTERY_TREND_SAMPLES)
        BATTERY_TREND_SAMPLES) = Some pv \<Longrightarrow> overallLoop s 10 (i + 1) (a + (cv - pv)) = None"
      using "1.hyps" [OF lt] "1.prems" by simp
    then show ?thesis
      using lt by (simp add: overallLoop.simps [of s 10 i a] split: bind_splits)
  qed
qed

lemma isCharging_defined:
  assumes "rtc_ok s" and "\<not> (batteryHistoryFull s \<and> batteryHistoryIndex s = 0)"
  shows "\<exists>c. isCharging s = Some c"
proof (cases "\<not> batteryHistoryFull s \<and> batteryHistoryIndex s < 3")
  case True
  then have "isCharging s = Some False" by (simp add: isCharging_def)
  then show ?thesis by blast
next
  case False
  have rng: "0 \<le> batteryHistoryIndex s" "batteryHistoryIndex s < 10"
    using assms(1) by (simp_all add: rtc_ok_def BATTERY_TREND_SAMPLES_def)
  have "0 \<le> batteryHistoryIndex s - 1 + BATTERY_TREND_SAMPLES"
    using rng by (simp add: BATTERY_TREND_SAMPLES_def)
  from hist_get_in [OF assms(1) this] obtain cv where
    cv: "hist_get s (c_mod (batteryHistoryIndex s - 1 + BATTERY_TREND_SAMPLES)
        BATTERY_TREND_SAMPLES) = Some cv" by blast
  have "min 3 (samples s - 1) \<le> 9" by simp
  from recentLoop_defined [OF assms(1) this, of 1 0] obtain r where
    r: "recentLoop s (min 3 (samples s - 1)) 1 0 = Some r" by auto
  have "samples s \<le> batteryHistoryIndex s + 9"
    using assms(2) rng by (auto simp: samples_def BATTERY_TREND_SAMPLES_def)
  from overallLoop_defined [OF assms(1) this, of 1 0] obtain t where
    t: "overallLoop s (samples s) 1 0 = Some t" by auto
  show ?thesis
    using False cv r t by (auto simp: isCharging_def recentTrend_def overallTrend_def Let_def)
qed

lemma isCharging_out_of_bounds:
  assumes "batteryHistoryFull s" and "batteryHistoryIndex s = 0"
  shows "isCharging s = None"
proof -
  have "overallLoop s 10 1 0 = None"
    using overallLoop_out_of_bounds [OF assms(2), of 1 0] by simp
  then have "overallTrend s = None"
    using assms by (simp add: overallTrend_def samples_def BATTERY_TREND_SAMPLES_def)
  then show ?thesis
    using assms by (simp add: isCharging_def split: bind_splits)
qed

subsection \<open>The sleep interval policy\<close>

lemma sleepPolicy_uvlo:
  "v \<le> BATTERY_UVLO_VOLTAGE \<Longrightarrow> sleepPolicy s v l = Some (UVLO, UVLO_SLEEP_MINUTES)"
  by (simp add: sleepPolicy_def)

lemma sleepPolicy_critical:
  "BATTERY_UVLO_VOLTAGE < v \<Longrightarrow> v \<le> BATTERY_CRITICAL_VOLTAGE
   \<Longrightarrow> sleepPolicy s v l = Some (Critical, CRITICAL_SLEEP_MINUTES)"
  by (simp add: sleepPolicy_def)

lemma sleepPolicy_above:
  assumes "BATTERY_CRITICAL_VOLTAGE < v"
  shows "sleepPolicy s v l =
     map_option (\<lambda>c. (if c \<or> (CHARGING_LIGHT_THRESHOLD < l \<and> 3.9 < v) \<or> 4.1 < v
                        then Charging else Good, MIN_SLEEP_MINUTES)) (isCharging s)"
proof -
  have a: "\<not> v \<le> BATTERY_UVLO_VOLTAGE" "\<not> v \<le> BATTERY_CRITICAL_VOLTAGE"
    "\<not> v < BATTERY_LOW_VOLTAGE"
    using assms
    by (simp_all add: BATTERY_UVLO_VOLTAGE_def BATTERY_CRITICAL_VOLTAGE_def BATTERY_LOW_VOLTAGE_def)
  show ?thesis
    by (cases "isCharging s")
      (auto simp: sleepPolicy_def a Let_def MIN_SLEEP_MINUTES_def MAX_SLEEP_MINUTES_def
        CHARGING_DETECT_VOLTAGE_def)
qed

lemma sleepPolicy_defined:
  assumes "rtc_ok s" and "\<not> (batteryHistoryFull s \<and> batteryHistoryIndex s = 0)"
  shows "\<exists>taken m. sleepPolicy s v l = Some (taken, m)"
proof -
  from isCharging_defined [OF assms] obtain c where c: "isCharging s = Some c" by blast
  consider "v \<le> BATTERY_UVLO_VOLTAGE"
    | "BATTERY_UVLO_VOLTAGE < v" "v \<le> BATTERY_CRITICAL_VOLTAGE"
    | "BATTERY_CRITICAL_VOLTAGE < v"
    by fastforce
  then show ?thesis
  proof cases
    case 1
    then show ?thesis by (simp add: sleepPolicy_uvlo)
  next
    case 2
    then show ?thesis by (simp add: sleepPolicy_critical)
  next
    case 3
    then show ?thesis by (simp add: sleepPolicy_above c)
  qed
qed

lemma sleepPolicy_clamped:
  assumes "BATTERY_CRITICAL_VOLTAGE < v" and "sleepPolicy s v l = Some (taken, m)"
  shows "MIN_SLEEP_MINUTES \<le> m \<and> m \<le> MAX_SLEEP_MINUTES"
proof -
  have a: "\<not> v \<le> BATTERY_UVLO_VOLTAGE" "\<not> v \<le> BATTERY_CRITICAL_VOLTAGE"
    using assms(1) by (simp_all add: BATTERY_UVLO_VOLTAGE_def BATTERY_CRITICAL_VOLTAGE_def)
  have "\<exists>x. m = max MIN_SLEEP_MINUTES (min MAX_SLEEP_MINUTES x)"
    using assms(2)
    by (auto simp: sleepPolicy_def a Let_def split: bind_splits prod.splits)
  then show ?thesis
    by (auto simp: MIN_SLEEP_MINUTES_def MAX_SLEEP_MINUTES_def)
qed

text \<open>
  Claim C1, as amended. The UVLO branch returns \<open>UVLO_SLEEP_MINUTES\<close> (2880) and the
  Critical branch \<open>CRITICAL_SLEEP_MINUTES\<close> (1440), both before the clamp of line 714.
  For every battery voltage above \<open>BATTERY_CRITICAL_VOLTAGE\<close> and every light level the
  value returned is within \<open>[MIN_SLEEP_MINUTES, MAX_SLEEP_MINUTES]\<close>, and a value is
  returned whenever the state is valid and the estimator does not read outside the
  array.
\<close>

theorem sleep_time_bounds:
  "(v \<le> BATTERY_UVLO_VOLTAGE \<longrightarrow>
      calculateDynamicSleepTime s v l = Some UVLO_SLEEP_MINUTES)
   \<and> (BATTERY_UVLO_VOLTAGE < v \<and> v \<le> BATTERY_CRITICAL_VOLTAGE \<longrightarrow>
      calculateDynamicSleepTime s v l = Some CRITICAL_SLEEP_MINUTES)
   \<and> (BATTERY_CRITICAL_VOLTAGE < v \<longrightarrow>
      (\<forall>m. calculateDynamicSleepTime s v l = Some m \<longrightarrow>
         MIN_SLEEP_MINUTES \<le> m \<and> m \<le> MAX_SLEEP_MINUTES)
      \<and> (rtc_ok s \<and> \<not> (batteryHistoryFull s \<and> batteryHistoryIndex s = 0) \<longrightarrow>
         (\<exists>m. calculateDynamicSleepTime s v l = Some m)))"
proof (intro conjI impI allI)
  assume "v \<le> BATTERY_UVLO_VOLTAGE"
  then show "calculateDynamicSleepTime s v l = Some UVLO_SLEEP_MINUTES"
    by (simp add: calculateDynamicSleepTime_def sleepPolicy_uvlo)
next
  assume "BATTERY_UVLO_VOLTAGE < v \<and> v \<le> BATTERY_CRITICAL_VOLTAGE"
  then show "calculateDynamicSleepTime s v l = Some CRITICAL_SLEEP_MINUTES"
    by (simp add: calculateDynamicSleepTime_def sleepPolicy_critical)
next
  fix m
  assume "BATTERY_CRITICAL_VOLTAGE < v" and "calculateDynamicSleepTime s v l = Some m"
  then show "MIN_SLEEP_MINUTES \<le> m" and "m \<le> MAX_SLEEP_MINUTES"
    using sleepPolicy_clamped [of v s l]
    by (auto simp: calculateDynamicSleepTime_def)
next
  assume "rtc_ok s \<and> \<not> (batteryHistoryFull s \<and> batteryHistoryIndex s = 0)"
  then show "\<exists>m. calculateDynamicSleepTime s v l = Some m"
    using sleepPolicy_defined [of s v l] by (auto simp: calculateDynamicSleepTime_def)
qed

theorem sleep_time_bounds_witness:
  "calculateDynamicSleepTime rtc_init 3.5 0 = Some UVLO_SLEEP_MINUTES
   \<and> calculateDynamicSleepTime rtc_init 3.65 0 = Some CRITICAL_SLEEP_MINUTES
   \<and> calculateDynamicSleepTime rtc_init 3.9 0 = Some 120
   \<and> MIN_SLEEP_MINUTES \<le> 120 \<and> 120 \<le> MAX_SLEEP_MINUTES
   \<and> rtc_ok rtc_init \<and> \<not> (batteryHistoryFull rtc_init \<and> batteryHistoryIndex rtc_init = 0)"
proof -
  have i: "isCharging rtc_init = Some False"
    by (simp add: isCharging_def rtc_init_def)
  have c: "calculateDynamicSleepTime rtc_init 3.9 0 = Some 120"
    by (simp add: calculateDynamicSleepTime_def sleepPolicy_above i BATTERY_CRITICAL_VOLTAGE_def
        CHARGING_LIGHT_THRESHOLD_def MIN_SLEEP_MINUTES_def)
  show ?thesis
    using sleep_time_bounds [of "3.5" rtc_init 0] sleep_time_bounds [of "3.65" rtc_init 0]
      sleep_time_bounds [of "3.9" rtc_init 0] c rtc_ok_init
    by (simp add: BATTERY_UVLO_VOLTAGE_def BATTERY_CRITICAL_VOLTAGE_def rtc_init_def)
qed

text \<open>
  Claim C1 as stated fails: at 3.5 V the function returns 2880 minutes, above
  \<open>MAX_SLEEP_MINUTES\<close>.
\<close>

theorem sleep_time_above_MAX_in_UVLO:
  "calculateDynamicSleepTime rtc_init 3.5 0 = Some 2880
   \<and> \<not> (MIN_SLEEP_MINUTES \<le> 2880 \<and> 2880 \<le> MAX_SLEEP_MINUTES)"
  by (simp add: calculateDynamicSleepTime_def sleepPolicy_def BATTERY_UVLO_VOLTAGE_def
      UVLO_SLEEP_MINUTES_def MAX_SLEEP_MINUTES_def)

text \<open>
  Claim C10. With the shipped thresholds (\<open>BATTERY_CRITICAL_VOLTAGE\<close> and
  \<open>BATTERY_LOW_VOLTAGE\<close> both 3.7) the interpolation branch is never taken, and the
  sleep duration returned is 2880 (exactly when the voltage is at most 3.6), 1440
  (exactly when it is above 3.6 and at most 3.7) or 120 minutes (exactly when it is
  above 3.7), for every state, voltage and light level; a result is returned whenever
  the state is valid and the estimator does not read outside the array.
\<close>

theorem shipped_policy_three_values:
  "(\<forall>taken m. sleepPolicy s v l = Some (taken, m) \<longrightarrow>
       taken \<noteq> Scaling \<and> m \<in> {120, 1440, 2880}
       \<and> calculateDynamicSleepTime s v l = Some m
       \<and> (m = 2880) = (v \<le> 3.6) \<and> (m = 1440) = (3.6 < v \<and> v \<le> 3.7) \<and> (m = 120) = (3.7 < v))
   \<and> (rtc_ok s \<and> \<not> (batteryHistoryFull s \<and> batteryHistoryIndex s = 0) \<longrightarrow>
       (\<exists>taken m. sleepPolicy s v l = Some (taken, m)))"
proof (intro conjI impI allI)
  fix taken m
  assume p: "sleepPolicy s v l = Some (taken, m)"
  consider "v \<le> BATTERY_UVLO_VOLTAGE"
    | "BATTERY_UVLO_VOLTAGE < v" "v \<le> BATTERY_CRITICAL_VOLTAGE"
    | "BATTERY_CRITICAL_VOLTAGE < v"
    by fastforce
  then have "taken \<noteq> Scaling \<and> m \<in> {120, 1440, 2880}
       \<and> (m = 2880) = (v \<le> 3.6) \<and> (m = 1440) = (3.6 < v \<and> v \<le> 3.7) \<and> (m = 120) = (3.7 < v)"
  proof cases
    case 1
    then show ?thesis
      using p by (auto simp: sleepPolicy_uvlo UVLO_SLEEP_MINUTES_def BATTERY_UVLO_VOLTAGE_def)
  next
    case 2
    then show ?thesis
      using p by (auto simp: sleepPolicy_critical CRITICAL_SLEEP_MINUTES_def
          BATTERY_UVLO_VOLTAGE_def BATTERY_CRITICAL_VOLTAGE_def)
  next
    case 3
    then show ?thesis
      using p by (auto simp: sleepPolicy_above MIN_SLEEP_MINUTES_def BATTERY_CRITICAL_VOLTAGE_def
          split: if_splits)
  qed
  then show "taken \<noteq> Scaling" and "m \<in> {120, 1440, 2880}"
    and "(m = 2880) = (v \<le> 3.6)" and "(m = 1440) = (3.6 < v \<and> v \<le> 3.7)"
    and "(m = 120) = (3.7 < v)"
    by blast+
  show "calculateDynamicSleepTime s v l = Some m"
    using p by (simp add: calculateDynamicSleepTime_def)
next
  assume "rtc_ok s \<and> \<not> (batteryHistoryFull s \<and> batteryHistoryIndex s = 0)"
  then show "\<exists>taken m. sleepPolicy s v l = Some (taken, m)"
    using sleepPolicy_defined [of s v l] by blast
qed

theorem shipped_policy_three_values_witness:
  "sleepPolicy rtc_init 3.5 0 = Some (UVLO, 2880)
   \<and> sleepPolicy rtc_init 3.65 0 = Some (Critical, 1440)
   \<and> sleepPolicy rtc_init 3.9 0 = Some (Good, 120)
   \<and> sleepPolicy rtc_init 3.95 2500 = Some (Charging, 120)
   \<and> rtc_ok rtc_init \<and> \<not> (batteryHistoryFull rtc_init \<and> batteryHistoryIndex rtc_init = 0)"
proof -
  have i: "isCharging rtc_init = Some False"
    by (simp add: isCharging_def rtc_init_def)
  have a: "sleepPolicy rtc_init 3.5 0 = Some (UVLO, 2880)"
    by (simp add: sleepPolicy_uvlo BATTERY_UVLO_VOLTAGE_def UVLO_SLEEP_MINUTES_def)
  have b: "sleepPolicy rtc_init 3.65 0 = Some (Critical, 1440)"
    by (simp add: sleepPolicy_critical BATTERY_UVLO_VOLTAGE_def BATTERY_CRITICAL_VOLTAGE_def
        CRITICAL_SLEEP_MINUTES_def)
  have c: "sleepPolicy rtc_init 3.9 0 = Some (Good, 120)"
    by (simp add: sleepPolicy_above i BATTERY_CRITICAL_VOLTAGE_def
        CHARGING_LIGHT_THRESHOLD_def MIN_SLEEP_MINUTES_def)
  have d: "sleepPolicy rtc_init 3.95 2500 = Some (Charging, 120)"
    by (simp add: sleepPolicy_above i BATTERY_CRITICAL_VOLTAGE_def
        CHARGING_LIGHT_THRESHOLD_def MIN_SLEEP_MINUTES_def)
  have f: "\<not> batteryHistoryFull rtc_init" by (simp add: rtc_init_def)
  show ?thesis
    using shipped_policy_three_values [of rtc_init "3.9" 0] a b c d f rtc_ok_init
    by simp
qed

subsection \<open>The upload pipeline\<close>

lemma uploadLoop_first:
  "httpResponse e 1 = 200 \<Longrightarrow> uploadLoop e p 1 [] = (True, [HttpPost p])"
  by (simp add: uploadLoop.simps [of e p 1] MAX_RETRIES_def)

lemma uploadLoop_second:
  "httpResponse e 1 \<noteq> 200 \<Longrightarrow> httpResponse e 2 = 200 \<Longrightarrow>
   uploadLoop e p 1 [] = (True, [HttpPost p,
     Delay (if USE_HTTPS e then CLOUD_WAKEUP_DELAY_MS else 2000), HttpPost p])"
  by (simp add: uploadLoop.simps [of e p 1] uploadLoop.simps [of e p 2] MAX_RETRIES_def)

lemma uploadLoop_none:
  "httpResponse e 1 \<noteq> 200 \<Longrightarrow> httpResponse e 2 \<noteq> 200 \<Longrightarrow>
   uploadLoop e p 1 [] = (False, [HttpPost p,
     Delay (if USE_HTTPS e then CLOUD_WAKEUP_DELAY_MS else 2000), HttpPost p])"
  by (simp add: uploadLoop.simps [of e p 1] uploadLoop.simps [of e p 2]
      uploadLoop.simps [of e p 3] MAX_RETRIES_def)

lemma buildPayload_eq:
  "buildPayload e s d m =
     map_option (\<lambda>c.
       [(''device_id'', JString (macAddress e)),
        (''timestamp'', JInt (int (millis e))),
        (''temperature'', JFloat (temperature d)),
        (''humidity'', JFloat (humidity d)),
        (''battery_voltage'', JFloat (batteryVoltage d)),
        (''light_level'', JInt (lightLevel d)),
        (''moisture_level'', JInt (moistureLevel d)),
        (''moisture_percent'', JFloat (moisturePercent d)),
        (''boot_count'', JInt (bootCount s)),
        (''rssi'', JInt (rssi e)),
        (''low_battery'', JBool (lowBattery d)),
        (''sleep_minutes'', JInt (int m)),
        (''charging'', JBool c)]) (isCharging s)"
  by (cases "isCharging s") (simp_all add: buildPayload_def json_set_def)

lemma isCharging_init: "isCharging rtc_init = Some False"
  by (simp add: isCharging_def rtc_init_def)

lemma example_env_sel:
  "httpResponse (example_env v w r) = r" "USE_HTTPS (example_env v w r) = True"
  "wifi (example_env v w r) = w" "sensors (example_env v w r) = Some (example_data v)"
  "rssi (example_env v w r) = - 60"
  by (simp_all add: example_env_def)

lemma example_data_sel:
  "batteryVoltage (example_data v) = v" "lightLevel (example_data v) = 100"
  by (simp_all add: example_data_def)

text \<open>
  Claim C7. \<open>MAX_RETRIES\<close> is 2. When the first attempt is answered with a status other
  than 200 and the second with 200, \<open>uploadData\<close> returns true after exactly two posts
  of the same document, with exactly one delay, between them (the cloud wake-up delay
  of 90 s in an HTTPS build, 2 s otherwise). A first attempt answered with 200 ends the
  loop with one post and no delay, and two failed attempts make it return false.
\<close>

theorem upload_retry:
  assumes "isCharging s = Some c"
  shows "MAX_RETRIES = 2
   \<and> (\<exists>p. buildPayload e s d m = Some p
        \<and> (httpResponse e 1 = 200 \<longrightarrow>
              uploadData e s d m = Some (True, [HttpPost p]))
        \<and> (httpResponse e 1 \<noteq> 200 \<and> httpResponse e 2 = 200 \<longrightarrow>
              uploadData e s d m = Some (True, [HttpPost p,
                Delay (if USE_HTTPS e then CLOUD_WAKEUP_DELAY_MS else 2000), HttpPost p]))
        \<and> (httpResponse e 1 \<noteq> 200 \<and> httpResponse e 2 \<noteq> 200 \<longrightarrow>
              uploadData e s d m = Some (False, [HttpPost p,
                Delay (if USE_HTTPS e then CLOUD_WAKEUP_DELAY_MS else 2000), HttpPost p])))"
proof -
  obtain p where p: "buildPayload e s d m = Some p"
    using assms by (simp add: buildPayload_eq)
  have u: "uploadData e s d m = Some (uploadLoop e p 1 [])"
    using p by (simp add: uploadData_def)
  show ?thesis
    using p u uploadLoop_first [of e p] uploadLoop_second [of e p] uploadLoop_none [of e p]
    by (simp add: MAX_RETRIES_def)
qed

theorem upload_retry_witness:
  "isCharging rtc_init = Some False
   \<and> (\<exists>p. uploadData (example_env 3.9 True (\<lambda>i. if i = 1 then 500 else 200)) rtc_init
             (example_data 3.9) 120
           = Some (True, [HttpPost p, Delay 90000, HttpPost p]))
   \<and> (\<exists>p. uploadData (example_env 3.9 True (\<lambda>i. 200)) rtc_init (example_data 3.9) 120
           = Some (True, [HttpPost p]))
   \<and> (\<exists>p. uploadData (example_env 3.9 True (\<lambda>i. - 1)) rtc_init (example_data 3.9) 120
           = Some (False, [HttpPost p, Delay 90000, HttpPost p]))"
proof -
  have a: "\<exists>p. uploadData (example_env 3.9 True (\<lambda>i. if i = 1 then 500 else 200)) rtc_init
             (example_data 3.9) 120
           = Some (True, [HttpPost p, Delay 90000, HttpPost p])"
    using upload_retry [OF isCharging_init,
        of "example_env 3.9 True (\<lambda>i. if i = 1 then 500 else 200)" "example_data 3.9" 120]
    by (simp add: example_env_sel CLOUD_WAKEUP_DELAY_MS_def) blast
  have b: "\<exists>p. uploadData (example_env 3.9 True (\<lambda>i. 200)) rtc_init (example_data 3.9) 120
           = Some (True, [HttpPost p])"
    using upload_retry [OF isCharging_init, of "example_env 3.9 True (\<lambda>i. 200)"
        "example_data 3.9" 120]
    by (simp add: example_env_sel CLOUD_WAKEUP_DELAY_MS_def) blast
  have c: "\<exists>p. uploadData (example_env 3.9 True (\<lambda>i. - 1)) rtc_init (example_data 3.9) 120
           = Some (False, [HttpPost p, Delay 90000, HttpPost p])"
    using upload_retry [OF isCharging_init, of "example_env 3.9 True (\<lambda>i. - 1)"
        "example_data 3.9" 120]
    by (simp add: example_env_sel CLOUD_WAKEUP_DELAY_MS_def) blast
  show ?thesis using a b c isCharging_init by blast
qed

text \<open>
  Claim C8, as amended. Whenever \<open>uploadData\<close> returns, the document it built has
  exactly the thirteen members \<open>device_id\<close>, \<open>timestamp\<close>, \<open>temperature\<close>, \<open>humidity\<close>,
  \<open>battery_voltage\<close>, \<open>light_level\<close>, \<open>moisture_level\<close>, \<open>moisture_percent\<close>,
  \<open>boot_count\<close>, \<open>rssi\<close>, \<open>low_battery\<close>, \<open>sleep_minutes\<close> and \<open>charging\<close>, in this
  order and with the values shown; the signal strength is the integer member \<open>rssi\<close>
  and there is no member \<open>signal_strength\<close>. Every attempt posts this document, and
  there is at least one attempt.
\<close>

theorem payload_fields:
  assumes "uploadData e s d m = Some (ok, trace)"
  shows "\<exists>c p. isCharging s = Some c \<and> buildPayload e s d m = Some p
     \<and> p = [(''device_id'', JString (macAddress e)),
            (''timestamp'', JInt (int (millis e))),
            (''temperature'', JFloat (temperature d)),
            (''humidity'', JFloat (humidity d)),
            (''battery_voltage'', JFloat (batteryVoltage d)),
            (''light_level'', JInt (lightLevel d)),
            (''moisture_level'', JInt (moistureLevel d)),
            (''moisture_percent'', JFloat (moisturePercent d)),
            (''boot_count'', JInt (bootCount s)),
            (''rssi'', JInt (rssi e)),
            (''low_battery'', JBool (lowBattery d)),
            (''sleep_minutes'', JInt (int m)),
            (''charging'', JBool c)]
     \<and> map_of p ''signal_strength'' = None
     \<and> (\<forall>ev \<in> set trace. is_post ev \<longrightarrow> ev = HttpPost p)
     \<and> (\<exists>ev \<in> set trace. is_post ev)"
proof -
  obtain p where p: "buildPayload e s d m = Some p"
    and u: "uploadLoop e p 1 [] = (ok, trace)"
    using assms by (auto simp: uploadData_def split: bind_splits)
  from p obtain c where c: "isCharging s = Some c"
    and pe: "p = [(''device_id'', JString (macAddress e)),
            (''timestamp'', JInt (int (millis e))),
            (''temperature'', JFloat (temperature d)),
            (''humidity'', JFloat (humidity d)),
            (''battery_voltage'', JFloat (batteryVoltage d)),
            (''light_level'', JInt (lightLevel d)),
            (''moisture_level'', JInt (moistureLevel d)),
            (''moisture_percent'', JFloat (moisturePercent d)),
            (''boot_count'', JInt (bootCount s)),
            (''rssi'', JInt (rssi e)),
            (''low_battery'', JBool (lowBattery d)),
            (''sleep_minutes'', JInt (int m)),
            (''charging'', JBool c)]"
    by (auto simp: buildPayload_eq)
  have nss: "map_of p ''signal_strength'' = None"
    by (simp add: pe)
  have "trace = [HttpPost p] \<or> (\<exists>n. trace = [HttpPost p, Delay n, HttpPost p])"
    using u uploadLoop_first [of e p] uploadLoop_second [of e p] uploadLoop_none [of e p]
    by (cases "httpResponse e 1 = 200"; cases "httpResponse e 2 = 200") auto
  then have "(\<forall>ev \<in> set trace. is_post ev \<longrightarrow> ev = HttpPost p) \<and> (\<exists>ev \<in> set trace. is_post ev)"
    by auto
  then show ?thesis using c p pe nss by blast
qed

theorem payload_fields_witness:
  "\<exists>p. uploadData (example_env 3.9 True (\<lambda>i. if i = 1 then 500 else 200)) rtc_init
          (example_data 3.9) 120 = Some (True, [HttpPost p, Delay 90000, HttpPost p])
     \<and> map fst p = [''device_id'', ''timestamp'', ''temperature'', ''humidity'',
          ''battery_voltage'', ''light_level'', ''moisture_level'', ''moisture_percent'',
          ''boot_count'', ''rssi'', ''low_battery'', ''sleep_minutes'', ''charging'']
     \<and> map_of p ''rssi'' = Some (JInt (- 60))
     \<and> map_of p ''signal_strength'' = None"
proof -
  let ?e = "example_env 3.9 True (\<lambda>i. if i = 1 then 500 else 200)"
  obtain p where b: "buildPayload ?e rtc_init (example_data 3.9) 120 = Some p"
    by (simp add: buildPayload_eq isCharging_init)
  have u: "uploadData ?e rtc_init (example_data 3.9) 120
      = Some (True, [HttpPost p, Delay 90000, HttpPost p])"
    using b uploadLoop_second [of ?e p]
    by (simp add: uploadData_def example_env_sel CLOUD_WAKEUP_DELAY_MS_def)
  from payload_fields [OF u] obtain c q where
    q: "buildPayload ?e rtc_init (example_data 3.9) 120 = Some q"
    and qe: "q = [(''device_id'', JString (macAddress ?e)),
            (''timestamp'', JInt (int (millis ?e))),
            (''temperature'', JFloat (temperature (example_data 3.9))),
            (''humidity'', JFloat (humidity (example_data 3.9))),
            (''battery_voltage'', JFloat (batteryVoltage (example_data 3.9))),
            (''light_level'', JInt (lightLevel (example_data 3.9))),
            (''moisture_level'', JInt (moistureLevel (example_data 3.9))),
            (''moisture_percent'', JFloat (moisturePercent (example_data 3.9))),
            (''boot_count'', JInt (bootCount rtc_init)),
            (''rssi'', JInt (rssi ?e)),
            (''low_battery'', JBool (lowBattery (example_data 3.9))),
            (''sleep_minutes'', JInt (int 120)),
            (''charging'', JBool c)]"
    by blast
  have pq: "p = q" using b q by simp
  have m1: "map fst p = [''device_id'', ''timestamp'', ''temperature'', ''humidity'',
          ''battery_voltage'', ''light_level'', ''moisture_level'', ''moisture_percent'',
          ''boot_count'', ''rssi'', ''low_battery'', ''sleep_minutes'', ''charging'']"
    unfolding pq qe by simp
  have m2: "map_of p ''rssi'' = Some (JInt (- 60))"
    unfolding pq qe by (simp add: example_env_sel)
  have m3: "map_of p ''signal_strength'' = None"
    unfolding pq qe by simp
  show ?thesis
    by (rule exI [of _ p]) (intro conjI u m1 m2 m3)
qed

text \<open>
  Claim C8 as stated fails: the document built for the example reading has no member
  named \<open>signal_strength\<close>.
\<close>

theorem payload_lacks_signal_strength:
  "map_option (map fst) (buildPayload (example_env 3.9 True (\<lambda>i. 200)) rtc_init
       (example_data 3.9) 120)
     = Some [''device_id'', ''timestamp'', ''temperature'', ''humidity'',
          ''battery_voltage'', ''light_level'', ''moisture_level'', ''moisture_percent'',
          ''boot_count'', ''rssi'', ''low_battery'', ''sleep_minutes'', ''charging'']
   \<and> ''signal_strength'' \<notin> set [''device_id'', ''timestamp'', ''temperature'', ''humidity'',
          ''battery_voltage'', ''light_level'', ''moisture_level'', ''moisture_percent'',
          ''boot_count'', ''rssi'', ''low_battery'', ''sleep_minutes'', ''charging'']"
  by (simp add: buildPayload_eq isCharging_init)

subsection \<open>The wake cycle\<close>

text \<open>The estimator reads the history, the write index and the full flag only.\<close>

lemma hist_get_cong:
  "batteryHistory s = batteryHistory t \<Longrightarrow> hist_get s i = hist_get t i"
  by (simp add: hist_get_def)

lemma recentLoop_cong:
  assumes "batteryHistory s = batteryHistory t"
    and "batteryHistoryIndex s = batteryHistoryIndex t"
  shows "recentLoop s n i a = recentLoop t n i a"
  using assms
proof (induction s n i a rule: recentLoop.induct)
  case (1 s n i a)
  have g: "\<And>x. hist_get s x = hist_get t x"
    using "1.prems"(1) by (rule hist_get_cong)
  show ?case
  proof (cases "i \<le> n")
    case False
    then show ?thesis
      by (simp add: recentLoop.simps [of s n i a] recentLoop.simps [of t n i a])
  next
    case True
    then show ?thesis
      using "1.IH" "1.prems"
      by (auto simp: recentLoop.simps [of s n i a] recentLoop.simps [of t n i a] g
          intro!: Option.bind_cong)
  qed
qed

lemma overallLoop_cong:
  assumes "batteryHistory s = batteryHistory t"
    and "batteryHistoryIndex s = batteryHistoryIndex t"
  shows "overallLoop s n i a = overallLoop t n i a"
  using assms
proof (induction s n i a rule: overallLoop.induct)
  case (1 s n i a)
  have g: "\<And>x. hist_get s x = hist_get t x"
    using "1.prems"(1) by (rule hist_get_cong)
  show ?case
  proof (cases "i < n")
    case False
    then show ?thesis
      by (simp add: overallLoop.simps [of s n i a] overallLoop.simps [of t n i a])
  next
    case True
    then show ?thesis
      using "1.IH" "1.prems"
      by (auto simp: overallLoop.simps [of s n i a] overallLoop.simps [of t n i a] g
          intro!: Option.bind_cong)
  qed
qed

lemma isCharging_cong:
  assumes "batteryHistory s = batteryHistory t"
    and "batteryHistoryIndex s = batteryHistoryIndex t"
    and "batteryHistoryFull s = batteryHistoryFull t"
  shows "isCharging s = isCharging t"
  using assms recentLoop_cong [OF assms(1,2)] overallLoop_cong [OF assms(1,2)]
    hist_get_cong [OF assms(1)]
  by (simp add: isCharging_def recentTrend_def overallTrend_def samples_def)


lemma setupCycle_no_sensors:
  "sensors e = None \<Longrightarrow>
   setupCycle e s = Some (s\<lparr>bootCount := bootCount s + 1\<rparr>, [DeepSleep SLEEP_DURATION_US])"
  by (simp add: setupCycle_def)

lemma updateBatteryHistory_boot:
  assumes "rtc_ok s"
  shows "\<exists>s1. updateBatteryHistory (s\<lparr>bootCount := bootCount s + 1\<rparr>) v = Some s1
    \<and> rtc_ok s1 \<and> failedUploads s1 = failedUploads s"
proof -
  have "rtc_ok (s\<lparr>bootCount := bootCount s + 1\<rparr>)"
    using assms by (simp add: rtc_ok_def)
  from update_ok [OF this, of v] show ?thesis by auto
qed

lemma setupCycle_uvlo:
  assumes "sensors e = Some d" and "batteryVoltage d \<le> BATTERY_UVLO_VOLTAGE"
    and "updateBatteryHistory (s\<lparr>bootCount := bootCount s + 1\<rparr>) (batteryVoltage d) = Some s1"
  shows "setupCycle e s = Some (s1\<lparr>lastSleepDuration := UVLO_SLEEP_MINUTES\<rparr>,
            [DeepSleep (UVLO_SLEEP_HOURS * 60 * 60 * 1000000)])"
  using assms
  by (simp add: setupCycle_def calculateDynamicSleepTime_def sleepPolicy_uvlo)

lemma setupCycle_critical:
  assumes "sensors e = Some d" and "BATTERY_UVLO_VOLTAGE < batteryVoltage d"
    and "batteryVoltage d < BATTERY_CRITICAL_VOLTAGE"
    and "updateBatteryHistory (s\<lparr>bootCount := bootCount s + 1\<rparr>) (batteryVoltage d) = Some s1"
  shows "setupCycle e s = Some (s1\<lparr>lastSleepDuration := CRITICAL_SLEEP_MINUTES\<rparr>,
            [DeepSleep (CRITICAL_BATTERY_SLEEP_HOURS * 60 * 60 * 1000000)])"
  using assms
  by (simp add: setupCycle_def calculateDynamicSleepTime_def sleepPolicy_critical)

lemma setupCycle_radio:
  assumes "sensors e = Some d" and "BATTERY_CRITICAL_VOLTAGE \<le> batteryVoltage d"
    and "setupCycle e s = Some (s', trace)"
  shows "\<exists>s1 m. updateBatteryHistory (s\<lparr>bootCount := bootCount s + 1\<rparr>) (batteryVoltage d) = Some s1
     \<and> calculateDynamicSleepTime s1 (batteryVoltage d) (lightLevel d) = Some m
     \<and> (if wifi e then
          (\<exists>ok posts. uploadData e (s1\<lparr>lastSleepDuration := m\<rparr>) d m = Some (ok, posts)
             \<and> s' = s1\<lparr>lastSleepDuration := m,
                        failedUploads := (if ok then 0 else failedUploads s1 + 1)\<rparr>
             \<and> trace = [ConnectWiFi] @ posts @ [WiFiOff, DeepSleep (m * 60 * 1000000)])
         else s' = s1\<lparr>lastSleepDuration := m, failedUploads := failedUploads s1 + 1\<rparr>
             \<and> trace = [ConnectWiFi, DeepSleep (m * 60 * 1000000)])"
proof -
  have a: "\<not> batteryVoltage d \<le> BATTERY_UVLO_VOLTAGE"
    "\<not> batteryVoltage d < BATTERY_CRITICAL_VOLTAGE"
    using assms(2) by (simp_all add: BATTERY_UVLO_VOLTAGE_def BATTERY_CRITICAL_VOLTAGE_def)
  show ?thesis
    using assms(1,3) a
    by (auto simp: setupCycle_def Let_def split: bind_splits if_splits)
qed

text \<open>
  Claim C4. When the battery voltage read is at most \<open>BATTERY_UVLO_VOLTAGE\<close>, the policy
  takes the UVLO branch with \<open>UVLO_SLEEP_MINUTES\<close> whatever the light level and the
  history, and the cycle of a valid state ends in a deep sleep of \<open>UVLO_SLEEP_HOURS\<close>
  (the same 2880 minutes) as its only event: no WiFi connection is attempted and nothing
  is posted.
\<close>

theorem uvlo_cutoff:
  assumes "rtc_ok s" and "sensors e = Some d" and "batteryVoltage d \<le> BATTERY_UVLO_VOLTAGE"
  shows "(\<forall>t l. sleepPolicy t (batteryVoltage d) l = Some (UVLO, UVLO_SLEEP_MINUTES))
    \<and> (\<exists>s'. setupCycle e s = Some (s', [DeepSleep (UVLO_SLEEP_HOURS * 60 * 60 * 1000000)])
          \<and> lastSleepDuration s' = UVLO_SLEEP_MINUTES \<and> failedUploads s' = failedUploads s)
    \<and> (\<forall>s' trace. setupCycle e s = Some (s', trace) \<longrightarrow> filter uses_radio trace = [])
    \<and> UVLO_SLEEP_HOURS * 60 = UVLO_SLEEP_MINUTES"
proof -
  from updateBatteryHistory_boot [OF assms(1), of "batteryVoltage d"] obtain s1 where
    u: "updateBatteryHistory (s\<lparr>bootCount := bootCount s + 1\<rparr>) (batteryVoltage d) = Some s1"
    and f: "failedUploads s1 = failedUploads s"
    by blast
  have c: "setupCycle e s = Some (s1\<lparr>lastSleepDuration := UVLO_SLEEP_MINUTES\<rparr>,
            [DeepSleep (UVLO_SLEEP_HOURS * 60 * 60 * 1000000)])"
    by (rule setupCycle_uvlo [OF assms(2,3) u])
  have p: "\<forall>t l. sleepPolicy t (batteryVoltage d) l = Some (UVLO, UVLO_SLEEP_MINUTES)"
    using assms(3) by (simp add: sleepPolicy_uvlo)
  have h: "UVLO_SLEEP_HOURS * 60 = UVLO_SLEEP_MINUTES"
    by (simp add: UVLO_SLEEP_HOURS_def UVLO_SLEEP_MINUTES_def)
  show ?thesis
    using c f p h by simp
qed

theorem uvlo_cutoff_witness:
  "rtc_ok rtc_init \<and> sensors (example_env 3.5 True (\<lambda>i. 200)) = Some (example_data 3.5)
   \<and> batteryVoltage (example_data 3.5) \<le> BATTERY_UVLO_VOLTAGE
   \<and> (\<exists>s'. setupCycle (example_env 3.5 True (\<lambda>i. 200)) rtc_init
              = Some (s', [DeepSleep 172800000000]) \<and> lastSleepDuration s' = 2880)"
proof -
  have a: "sensors (example_env 3.5 True (\<lambda>i. 200)) = Some (example_data 3.5)"
    by (simp add: example_env_sel)
  have b: "batteryVoltage (example_data 3.5) \<le> BATTERY_UVLO_VOLTAGE"
    by (simp add: example_data_sel BATTERY_UVLO_VOLTAGE_def)
  from uvlo_cutoff [OF rtc_ok_init a b]
  have "\<exists>s'. setupCycle (example_env 3.5 True (\<lambda>i. 200)) rtc_init
              = Some (s', [DeepSleep 172800000000]) \<and> lastSleepDuration s' = 2880"
    by (auto simp: UVLO_SLEEP_HOURS_def UVLO_SLEEP_MINUTES_def)
  then show ?thesis using rtc_ok_init a b by blast
qed


lemma setupCycle_defined:
  assumes "rtc_ok s" and "batteryHistoryIndex s \<noteq> 9"
  shows "\<exists>s' trace. setupCycle e s = Some (s', trace)"
proof (cases "sensors e")
  case None
  then show ?thesis by (simp add: setupCycle_no_sensors)
next
  case (Some d)
  let ?v = "batteryVoltage d"
  have ok0: "rtc_ok (s\<lparr>bootCount := bootCount s + 1\<rparr>)"
    using assms(1) by (simp add: rtc_ok_def)
  from update_ok [OF ok0, of ?v] obtain s1 where
    u: "updateBatteryHistory (s\<lparr>bootCount := bootCount s + 1\<rparr>) ?v = Some s1"
    and ok1: "rtc_ok s1"
    and i1: "batteryHistoryIndex s1 = (batteryHistoryIndex s + 1) mod BATTERY_TREND_SAMPLES"
    by auto
  have rng: "0 \<le> batteryHistoryIndex s" "batteryHistoryIndex s < 10"
    using assms(1) by (simp_all add: rtc_ok_def BATTERY_TREND_SAMPLES_def)
  have "batteryHistoryIndex s + 1 < 10" using rng assms(2) by simp
  then have nz: "batteryHistoryIndex s1 \<noteq> 0"
    using i1 rng by (simp add: BATTERY_TREND_SAMPLES_def)
  then have safe: "\<not> (batteryHistoryFull s1 \<and> batteryHistoryIndex s1 = 0)" by simp
  from isCharging_defined [OF ok1 safe] obtain c where c: "isCharging s1 = Some c" by blast
  from sleepPolicy_defined [OF ok1 safe, of ?v "lightLevel d"] obtain m where
    m: "calculateDynamicSleepTime s1 ?v (lightLevel d) = Some m"
    by (auto simp: calculateDynamicSleepTime_def)
  have c2: "\<And>x. isCharging (s1\<lparr>lastSleepDuration := m\<rparr>) = Some c"
    using c isCharging_cong [of "s1\<lparr>lastSleepDuration := m\<rparr>" s1] by simp
  have c3: "\<And>x. isCharging (s1\<lparr>lastSleepDuration := m, failedUploads := x\<rparr>) = Some c"
    using c isCharging_cong [of "s1\<lparr>lastSleepDuration := m, failedUploads := x\<rparr>" s1 for x]
    by simp
  obtain p where p: "buildPayload e (s1\<lparr>lastSleepDuration := m\<rparr>) d m = Some p"
    using c2 by (simp add: buildPayload_eq)
  obtain ok posts where l: "uploadLoop e p 1 [] = (ok, posts)"
    by (cases "uploadLoop e p 1 []") auto
  have up: "uploadData e (s1\<lparr>lastSleepDuration := m\<rparr>) d m = Some (ok, posts)"
    using p l by (simp add: uploadData_def)
  show ?thesis
    using Some u m up c2 c3
    by (simp add: setupCycle_def Let_def)
qed


lemma uploadData_first:
  assumes "uploadData e s d m = Some (ok, posts)" and "httpResponse e 1 = 200"
  shows "ok \<and> (\<exists>p. posts = [HttpPost p])"
proof -
  obtain p where "uploadLoop e p 1 [] = (ok, posts)"
    using assms(1) by (auto simp: uploadData_def split: bind_splits)
  then show ?thesis using uploadLoop_first [OF assms(2), of p] by auto
qed

lemma setupCycle_below_critical:
  assumes "rtc_ok s" and "sensors e = Some d"
    and "BATTERY_UVLO_VOLTAGE < batteryVoltage d"
    and "batteryVoltage d < BATTERY_CRITICAL_VOLTAGE"
  shows "sleepPolicy t (batteryVoltage d) l = Some (Critical, CRITICAL_SLEEP_MINUTES)
    \<and> (\<exists>s'. setupCycle e s
           = Some (s', [DeepSleep (CRITICAL_BATTERY_SLEEP_HOURS * 60 * 60 * 1000000)])
         \<and> lastSleepDuration s' = CRITICAL_SLEEP_MINUTES
         \<and> failedUploads s' = failedUploads s)"
proof -
  from updateBatteryHistory_boot [OF assms(1), of "batteryVoltage d"] obtain s1 where
    u: "updateBatteryHistory (s\<lparr>bootCount := bootCount s + 1\<rparr>) (batteryVoltage d) = Some s1"
    and f: "failedUploads s1 = failedUploads s"
    by blast
  show ?thesis
    using setupCycle_critical [OF assms(2,3,4) u] f assms(3,4)
    by (simp add: sleepPolicy_critical)
qed

text \<open>
  No binary32 value is 3.7, which is not a dyadic rational, and none lies between 3.7
  and the \<^verbatim>\<open>double\<close> the literal stands for: a reading compares with the decimal as it
  does with the literal, and the guard of line 670 (\<^verbatim>\<open><=\<close>) and that of line 123 (\<^verbatim>\<open><\<close>)
  hold for the same readings.
\<close>

lemma five_not_dvd: "\<not> (5 :: int) dvd 37 * 2 ^ n"
proof (induction n)
  case 0
  show ?case by simp
next
  case (Suc n)
  have "coprime (5 :: int) 2" by (simp add: coprime_iff_gcd_eq_1 gcd_non_0_int)
  then have "(5 :: int) dvd (37 * 2 ^ n) * 2 \<longleftrightarrow> (5 :: int) dvd 37 * 2 ^ n"
    by (rule coprime_dvd_mult_left_iff)
  then show ?case using Suc by (simp add: mult.assoc mult.commute)
qed

lemma binary32_not_3_7: "binary32 m e \<noteq> 37 / 10"
proof
  assume a: "binary32 m e = 37 / 10"
  show False
  proof (cases "0 \<le> e")
    case True
    then have "real_of_int m * 2 ^ nat e = 37 / 10" using a by (simp add: binary32_def)
    then have "real_of_int (10 * (m * 2 ^ nat e)) = real_of_int 37" by simp
    then have "10 * (m * 2 ^ nat e) = (37 :: int)" by (simp only: of_int_eq_iff)
    then have "(10 :: int) dvd 37" by (metis dvd_triv_left)
    then show False by simp
  next
    case False
    then have "real_of_int m / 2 ^ nat (- e) = 37 / 10" using a by (simp add: binary32_def)
    then have "real_of_int m * 10 = 37 * 2 ^ nat (- e)" by (simp add: field_simps)
    then have "real_of_int (m * 10) = real_of_int (37 * 2 ^ nat (- e))" by simp
    then have "m * 10 = 37 * 2 ^ nat (- e)" by (simp only: of_int_eq_iff)
    then have "(5 :: int) dvd 37 * 2 ^ nat (- e)" by (metis dvd_triv_right dvd_mult_left mult.commute numeral_Bit0 mult_2 dvd_def mult.assoc)
    then show False using five_not_dvd by blast
  qed
qed


lemma binary32_scaled:
  assumes "- 22 \<le> e"
  shows "binary32 m e * 2 ^ 22 = real_of_int (m * 2 ^ nat (e + 22))"
proof (cases "0 \<le> e")
  case True
  then have "nat (e + 22) = nat e + 22" by simp
  then show ?thesis using True by (simp add: binary32_def power_add)
next
  case False
  then have "nat (- e) + nat (e + 22) = 22" using assms by simp
  then have p: "(2 :: real) ^ 22 = 2 ^ nat (- e) * 2 ^ nat (e + 22)"
    by (simp only: power_add [symmetric])
  have "binary32 m e = real_of_int m / 2 ^ nat (- e)"
    using False by (simp add: binary32_def)
  then have "binary32 m e * 2 ^ 22
      = real_of_int m / 2 ^ nat (- e) * (2 ^ nat (- e) * 2 ^ nat (e + 22))"
    by (simp only: p)
  also have "\<dots> = real_of_int m * 2 ^ nat (e + 22)" by simp
  also have "\<dots> = real_of_int (m * 2 ^ nat (e + 22))" by simp
  finally show ?thesis .
qed

lemma binary32_small:
  assumes "\<bar>m\<bar> < 2 ^ 24" and "e < - 22"
  shows "binary32 m e < 2"
proof -
  have "(23 :: nat) \<le> nat (- e)" using assms(2) by simp
  then have "(2 :: real) ^ 23 \<le> 2 ^ nat (- e)" by (rule power_increasing) simp
  moreover have "real_of_int m < 2 ^ 24"
  proof -
    have "m < 2 ^ 24" using assms(1) by simp
    then have "real_of_int m < real_of_int (2 ^ 24)" by (simp only: of_int_less_iff)
    then show ?thesis by simp
  qed
  ultimately have "real_of_int m < 2 * 2 ^ nat (- e)" by simp
  then have "real_of_int m / 2 ^ nat (- e) < 2" by (simp add: field_simps)
  then show ?thesis using assms(2) by (simp add: binary32_def)
qed

lemma no_binary32_between:
  assumes "is_binary32 v" and "37 / 10 \<le> v" and "v \<le> double_3_7"
  shows False
proof -
  from assms(1) obtain m e where m: "\<bar>m\<bar> < 2 ^ 24" and v: "v = binary32 m e"
    by (auto simp: is_binary32_def)
  show False
  proof (cases "e < - 22")
    case True
    from binary32_small [OF m True] show False using assms(2) v by simp
  next
    case False
    then have "- 22 \<le> e" by simp
    from binary32_scaled [OF this, of m] obtain j :: int where j: "v * 2 ^ 22 = real_of_int j"
      using v by blast
    have "37 / 10 * 2 ^ 22 \<le> v * (2 :: real) ^ 22"
      using assms(2) by (simp only: mult_le_cancel_right_pos zero_less_power zero_less_numeral)
    then have "real_of_int 15518924 < real_of_int j" using j by simp
    then have lo: "15518924 < j" by (simp only: of_int_less_iff)
    have "v * (2 :: real) ^ 22 \<le> double_3_7 * 2 ^ 22"
      using assms(3) by (simp only: mult_le_cancel_right_pos zero_less_power zero_less_numeral)
    then have "real_of_int j < real_of_int 15518925" using j by (simp add: double_3_7_def)
    then have hi: "j < 15518925" by (simp only: of_int_less_iff)
    show False using lo hi by simp
  qed
qed

lemma binary32_against_double_3_7:
  assumes "is_binary32 v"
  shows "(v \<le> double_3_7) = (v \<le> BATTERY_CRITICAL_VOLTAGE)
       \<and> (v < double_3_7) = (v < BATTERY_CRITICAL_VOLTAGE)"
proof -
  have c: "BATTERY_CRITICAL_VOLTAGE = 37 / 10" by (simp add: BATTERY_CRITICAL_VOLTAGE_def)
  have d: "37 / 10 < double_3_7" by (simp add: double_3_7_def)
  have nb: "v < 37 / 10 \<or> double_3_7 < v"
    using no_binary32_between [OF assms] by fastforce
  show ?thesis unfolding c using nb d by linarith
qed

lemma binary32_below_critical:
  assumes "is_binary32 v" and "v \<le> BATTERY_CRITICAL_VOLTAGE"
  shows "v < BATTERY_CRITICAL_VOLTAGE"
proof -
  have c: "BATTERY_CRITICAL_VOLTAGE = 37 / 10" by (simp add: BATTERY_CRITICAL_VOLTAGE_def)
  from assms(1) obtain m e where v: "v = binary32 m e" by (auto simp: is_binary32_def)
  have "v \<noteq> 37 / 10" unfolding v by (rule binary32_not_3_7)
  then show ?thesis using assms(2) unfolding c by linarith
qed

lemma guards_agree_on_binary32:
  "is_binary32 v \<Longrightarrow> (v \<le> BATTERY_CRITICAL_VOLTAGE) = (v < BATTERY_CRITICAL_VOLTAGE)"
  using binary32_below_critical [of v] by auto

text \<open>
  Claim C2. For every reading (a binary32 value) above \<open>BATTERY_UVLO_VOLTAGE\<close> and at
  most \<open>BATTERY_CRITICAL_VOLTAGE\<close>, the policy takes the Critical branch with
  \<open>CRITICAL_SLEEP_MINUTES\<close> whatever the state and the light level, and the cycle of a
  valid state ends in a deep sleep of \<open>CRITICAL_BATTERY_SLEEP_HOURS\<close> (the same 1440
  minutes) as its only event: no WiFi connection is attempted and nothing is posted.
  Such a reading is strictly below the threshold, so the case of a reading equal to it
  does not arise.
\<close>

theorem critical_tier_skips_upload:
  assumes "rtc_ok s" and "sensors e = Some d" and "is_binary32 (batteryVoltage d)"
    and "BATTERY_UVLO_VOLTAGE < batteryVoltage d"
    and "batteryVoltage d \<le> BATTERY_CRITICAL_VOLTAGE"
  shows "(\<forall>t l. sleepPolicy t (batteryVoltage d) l = Some (Critical, CRITICAL_SLEEP_MINUTES))
    \<and> (\<exists>s'. setupCycle e s
           = Some (s', [DeepSleep (CRITICAL_BATTERY_SLEEP_HOURS * 60 * 60 * 1000000)])
         \<and> lastSleepDuration s' = CRITICAL_SLEEP_MINUTES
         \<and> failedUploads s' = failedUploads s)
    \<and> (\<forall>s' trace. setupCycle e s = Some (s', trace) \<longrightarrow> filter uses_radio trace = [])
    \<and> batteryVoltage d < BATTERY_CRITICAL_VOLTAGE
    \<and> CRITICAL_BATTERY_SLEEP_HOURS * 60 = CRITICAL_SLEEP_MINUTES"
proof -
  have lt: "batteryVoltage d < BATTERY_CRITICAL_VOLTAGE"
    by (rule binary32_below_critical [OF assms(3,5)])
  have p: "\<forall>t l. sleepPolicy t (batteryVoltage d) l = Some (Critical, CRITICAL_SLEEP_MINUTES)"
    using assms(4,5) by (simp add: sleepPolicy_critical)
  from setupCycle_below_critical [OF assms(1,2,4) lt] obtain s' where
    c: "setupCycle e s
           = Some (s', [DeepSleep (CRITICAL_BATTERY_SLEEP_HOURS * 60 * 60 * 1000000)])"
    and l: "lastSleepDuration s' = CRITICAL_SLEEP_MINUTES"
    and f: "failedUploads s' = failedUploads s"
    by blast
  have h: "CRITICAL_BATTERY_SLEEP_HOURS * 60 = CRITICAL_SLEEP_MINUTES"
    by (simp add: CRITICAL_BATTERY_SLEEP_HOURS_def CRITICAL_SLEEP_MINUTES_def)
  show ?thesis
    using p c l f lt h by simp
qed

theorem critical_tier_skips_upload_witness:
  "rtc_ok rtc_init
   \<and> sensors (example_env (binary32 15518924 (- 22)) True (\<lambda>i. 200))
       = Some (example_data (binary32 15518924 (- 22)))
   \<and> is_binary32 (batteryVoltage (example_data (binary32 15518924 (- 22))))
   \<and> BATTERY_UVLO_VOLTAGE < binary32 15518924 (- 22)
   \<and> binary32 15518924 (- 22) \<le> BATTERY_CRITICAL_VOLTAGE
   \<and> (\<exists>s'. setupCycle (example_env (binary32 15518924 (- 22)) True (\<lambda>i. 200)) rtc_init
              = Some (s', [DeepSleep 86400000000]) \<and> lastSleepDuration s' = 1440)"
proof -
  let ?v = "binary32 15518924 (- 22)"
  have a: "sensors (example_env ?v True (\<lambda>i. 200)) = Some (example_data ?v)"
    by (simp add: example_env_sel)
  have "\<bar>15518924 :: int\<bar> < 2 ^ 24 \<and> - 149 \<le> (- 22 :: int) \<and> (- 22 :: int) \<le> 104
      \<and> ?v = binary32 15518924 (- 22)"
    by simp
  then have "is_binary32 ?v" unfolding is_binary32_def by blast
  then have b: "is_binary32 (batteryVoltage (example_data ?v))"
    by (simp only: example_data_sel)
  have lo: "BATTERY_UVLO_VOLTAGE < ?v" by (simp add: binary32_def BATTERY_UVLO_VOLTAGE_def)
  have hi: "?v \<le> BATTERY_CRITICAL_VOLTAGE"
    by (simp add: binary32_def BATTERY_CRITICAL_VOLTAGE_def)
  have lo': "BATTERY_UVLO_VOLTAGE < batteryVoltage (example_data ?v)"
    using lo by (simp only: example_data_sel)
  have hi': "batteryVoltage (example_data ?v) \<le> BATTERY_CRITICAL_VOLTAGE"
    using hi by (simp only: example_data_sel)
  from critical_tier_skips_upload [OF rtc_ok_init a b lo' hi']
  have "\<exists>s'. setupCycle (example_env ?v True (\<lambda>i. 200)) rtc_init
              = Some (s', [DeepSleep 86400000000]) \<and> lastSleepDuration s' = 1440"
    by (auto simp: CRITICAL_BATTERY_SLEEP_HOURS_def CRITICAL_SLEEP_MINUTES_def)
  then show ?thesis using rtc_ok_init a b lo hi by blast
qed

text \<open>
  That the reading is a binary32 value is needed: at the real number 3.7 itself the
  guard of line 670 holds and that of line 123 does not, and the model's cycle goes on
  to the radio. No reading of the device is that number.
\<close>

lemma setupCycle_at_real_threshold:
  "(\<forall>t l. sleepPolicy t BATTERY_CRITICAL_VOLTAGE l = Some (Critical, CRITICAL_SLEEP_MINUTES))
   \<and> (\<exists>s' p. setupCycle (example_env BATTERY_CRITICAL_VOLTAGE True (\<lambda>i. 200)) rtc_init
         = Some (s', [ConnectWiFi, HttpPost p, WiFiOff,
                      DeepSleep (CRITICAL_SLEEP_MINUTES * 60 * 1000000)]))"
proof -
  let ?e = "example_env BATTERY_CRITICAL_VOLTAGE True (\<lambda>i. 200)"
  let ?d = "example_data BATTERY_CRITICAL_VOLTAGE"
  have pol: "\<And>t l. sleepPolicy t BATTERY_CRITICAL_VOLTAGE l = Some (Critical, CRITICAL_SLEEP_MINUTES)"
    by (rule sleepPolicy_critical)
      (simp_all add: BATTERY_UVLO_VOLTAGE_def BATTERY_CRITICAL_VOLTAGE_def)
  have i: "batteryHistoryIndex rtc_init \<noteq> 9" by (simp add: rtc_init_def)
  from setupCycle_defined [OF rtc_ok_init i] obtain s' trace where
    c: "setupCycle ?e rtc_init = Some (s', trace)" by blast
  have sens: "sensors ?e = Some ?d" by (simp add: example_env_sel)
  have ge: "BATTERY_CRITICAL_VOLTAGE \<le> batteryVoltage ?d" by (simp add: example_data_sel)
  from setupCycle_radio [OF sens ge c] obtain s1 m ok posts where
    m: "calculateDynamicSleepTime s1 (batteryVoltage ?d) (lightLevel ?d) = Some m"
    and up: "uploadData ?e (s1\<lparr>lastSleepDuration := m\<rparr>) ?d m = Some (ok, posts)"
    and tr: "trace = [ConnectWiFi] @ posts @ [WiFiOff, DeepSleep (m * 60 * 1000000)]"
    by (auto simp: example_env_sel)
  have m': "m = CRITICAL_SLEEP_MINUTES"
    using m pol by (simp add: calculateDynamicSleepTime_def example_data_sel)
  from uploadData_first [OF up] obtain p where "posts = [HttpPost p]"
    by (auto simp: example_env_sel)
  then have "setupCycle ?e rtc_init = Some (s', [ConnectWiFi, HttpPost p, WiFiOff,
                      DeepSleep (CRITICAL_SLEEP_MINUTES * 60 * 1000000)])"
    using c tr m' by simp
  then show ?thesis using pol by blast
qed

subsection \<open>What the two trend loops compute\<close>

text \<open>
  In a valid state the code's indexing reaches the stored samples from the newest
  backwards (\<open>stored_nth_newest\<close>); both loops are telescoping sums. \<open>recentTrend\<close> is
  the newest sample minus the one \<open>min 3 (samples - 1)\<close> places before it, divided by
  that count. \<open>overallTrend\<close> starts one delta late and ends one slot too far: in a full
  buffer it is the second newest sample minus the newest, divided by 9; in a buffer that
  has not wrapped it is the second newest sample minus slot 9, divided by the count of
  deltas. The mean of the deltas of the stored samples is the newest minus the oldest,
  divided by the count of deltas (\<open>spec_overall_slope_eq\<close>).
\<close>

lemma stored_nth_newest:
  assumes "rtc_ok s" and "0 \<le> k" and "k < samples s"
  shows "hist_get s (c_mod (batteryHistoryIndex s - 1 - k + BATTERY_TREND_SAMPLES)
           BATTERY_TREND_SAMPLES)
         = Some (stored s ! (length (stored s) - 1 - nat k))"
proof -
  define n where "n = nat (batteryHistoryIndex s)"
  define j where "j = nat k"
  define h where "h = batteryHistory s"
  have len: "length h = 10" and n: "n < 10" and idx: "batteryHistoryIndex s = int n"
    using assms(1) by (auto simp: rtc_ok_def n_def h_def BATTERY_TREND_SAMPLES_def)
  have k: "k = int j" using assms(2) by (simp add: j_def)
  have j: "j < 10" "\<not> batteryHistoryFull s \<Longrightarrow> j < n"
    using assms(3) n by (auto simp: samples_def idx k BATTERY_TREND_SAMPLES_def split: if_splits)
  define x where "x = int n - 1 - int j + 10"
  have e: "x = int (n + 9 - j)"
    using j(1) by (simp add: x_def)
  have m: "nat (x mod 10) = (n + 9 - j) mod 10"
    unfolding e by (simp add: nat_mod_distrib)
  have arg: "batteryHistoryIndex s - 1 - k + BATTERY_TREND_SAMPLES = x"
    by (simp add: idx k x_def BATTERY_TREND_SAMPLES_def)
  have "0 \<le> x" unfolding e by simp
  from hist_get_in [OF assms(1) this]
  have g: "hist_get s (c_mod (batteryHistoryIndex s - 1 - k + BATTERY_TREND_SAMPLES)
           BATTERY_TREND_SAMPLES) = Some (h ! ((n + 9 - j) mod 10))"
    by (simp only: arg m h_def)
  have low: "j < n \<Longrightarrow> (n + 9 - j) mod 10 = n - 1 - j"
  proof -
    assume "j < n"
    then have "n + 9 - j = (n - 1 - j) + 10" by simp
    then have "(n + 9 - j) mod 10 = (n - 1 - j) mod 10" by (simp only: mod_add_self2)
    then show ?thesis using n by simp
  qed
  have goal: "h ! ((n + 9 - j) mod 10) = stored s ! (length (stored s) - 1 - j)"
  proof (cases "batteryHistoryFull s")
    case False
    then have st: "stored s = take n h" by (simp add: stored_def n_def h_def)
    show ?thesis using low [OF j(2) [OF False]] j(2) [OF False] n len by (simp add: st)
  next
    case True
    then have st: "stored s = drop n h @ take n h" by (simp add: stored_def n_def h_def)
    show ?thesis
    proof (cases "j < n")
      case True
      then have a: "9 - j - (10 - n) = n - 1 - j" and b: "\<not> 9 - j < 10 - n"
        using n by simp_all
      show ?thesis using low [OF True] True n len j(1) a b by (simp add: st nth_append)
    next
      case False
      then have "(n + 9 - j) mod 10 = n + (9 - j)" using j(1) by simp
      then show ?thesis using False n len j(1) by (simp add: st nth_append)
    qed
  qed
  show ?thesis using g goal by (simp add: j_def)
qed


lemma hist_get_back:
  assumes "rtc_ok s" and "k \<le> batteryHistoryIndex s + 9"
  shows "hist_get s (c_mod (batteryHistoryIndex s - 1 - k + BATTERY_TREND_SAMPLES)
           BATTERY_TREND_SAMPLES) = Some (slot_back s k)"
proof -
  have e: "batteryHistoryIndex s - 1 - k + BATTERY_TREND_SAMPLES = batteryHistoryIndex s + 9 - k"
    by (simp add: BATTERY_TREND_SAMPLES_def)
  have nn: "0 \<le> batteryHistoryIndex s + 9 - k" using assms(2) by simp
  show ?thesis
    unfolding e slot_back_def by (rule hist_get_in [OF assms(1) nn])
qed

lemma back_stored:
  assumes "rtc_ok s" and "0 \<le> k" and "k < samples s"
  shows "slot_back s k = stored s ! (length (stored s) - 1 - nat k)"
proof -
  have "0 \<le> batteryHistoryIndex s" "samples s \<le> batteryHistoryIndex s + 10"
    using assms(1) by (simp_all add: rtc_ok_def samples_def BATTERY_TREND_SAMPLES_def)
  then have "k \<le> batteryHistoryIndex s + 9" using assms(3) by simp
  from hist_get_back [OF assms(1) this] stored_nth_newest [OF assms]
  show ?thesis by simp
qed

lemma back_wrap: "slot_back s (k + 10) = slot_back s k"
proof -
  have "(batteryHistoryIndex s + 9 - (k + 10)) mod 10
      = (batteryHistoryIndex s + 9 - k - 10) mod 10"
    by (simp add: algebra_simps)
  also have "\<dots> = (batteryHistoryIndex s + 9 - k) mod 10"
    by (metis minus_mod_self2)
  finally show ?thesis by (simp only: slot_back_def)
qed

lemma overallLoop_telescope:
  assumes "rtc_ok s" and "1 \<le> i" and "i < n" and "n \<le> batteryHistoryIndex s + 9"
  shows "overallLoop s n i a = Some (a + (slot_back s i - slot_back s n))"
  using assms
proof (induction s n i a rule: overallLoop.induct)
  case (1 s n i a)
  have ok: "rtc_ok s" by (rule "1.prems"(1))
  have lt: "i < n" by (rule "1.prems"(3))
  have cv: "hist_get s (c_mod (batteryHistoryIndex s - 1 - i + BATTERY_TREND_SAMPLES)
        BATTERY_TREND_SAMPLES) = Some (slot_back s i)"
    using "1.prems" by (intro hist_get_back [OF ok]) simp
  have pe: "batteryHistoryIndex s - 2 - i = batteryHistoryIndex s - 1 - (i + 1)" by simp
  have pv: "hist_get s (c_mod (batteryHistoryIndex s - 2 - i + BATTERY_TREND_SAMPLES)
        BATTERY_TREND_SAMPLES) = Some (slot_back s (i + 1))"
    unfolding pe using "1.prems" by (intro hist_get_back [OF ok]) simp
  have step: "overallLoop s n i a = overallLoop s n (i + 1) (a + (slot_back s i - slot_back s (i + 1)))"
    using lt cv pv by (simp add: overallLoop.simps [of s n i a])
  show ?case
  proof (cases "i + 1 < n")
    case True
    have "overallLoop s n (i + 1) (a + (slot_back s i - slot_back s (i + 1)))
      = Some (a + (slot_back s i - slot_back s (i + 1)) + (slot_back s (i + 1) - slot_back s n))"
      using "1.IH" [OF lt cv pv ok _ True] "1.prems" by simp
    then show ?thesis using step by simp
  next
    case False
    then have "n = i + 1" using lt by simp
    then have n: "slot_back s n = slot_back s (i + 1)" by simp
    have "overallLoop s n (i + 1) (a + (slot_back s i - slot_back s (i + 1)))
       = Some (a + (slot_back s i - slot_back s (i + 1)))"
      using False by (simp add: overallLoop.simps [of s n "i + 1"])
    then show ?thesis using step n by simp
  qed
qed

lemma overallTrend_full:
  assumes "rtc_ok s" and "batteryHistoryFull s" and "batteryHistoryIndex s \<noteq> 0"
  shows "overallTrend s = Some ((stored s ! 8 - stored s ! 9) / 9)"
proof -
  have rng: "1 \<le> batteryHistoryIndex s"
    using assms(1,3) by (simp add: rtc_ok_def)
  have sm: "samples s = 10" using assms(2) by (simp add: samples_def BATTERY_TREND_SAMPLES_def)
  have len: "length (stored s) = 10"
    using length_stored_eq [OF assms(1)] sm by simp
  have t: "overallLoop s 10 1 0 = Some (0 + (slot_back s 1 - slot_back s 10))"
    using rng by (intro overallLoop_telescope [OF assms(1)]) simp_all
  have a: "slot_back s 1 = stored s ! 8"
    using back_stored [OF assms(1), of 1] sm len by simp
  have "slot_back s 10 = slot_back s 0" using back_wrap [of s 0] by simp
  then have b: "slot_back s 10 = stored s ! 9"
    using back_stored [OF assms(1), of 0] sm len by simp
  show ?thesis
    using t a b by (simp add: overallTrend_def sm)
qed

lemma overallTrend_not_full:
  assumes "rtc_ok s" and "\<not> batteryHistoryFull s" and "2 \<le> batteryHistoryIndex s"
  shows "overallTrend s =
     Some ((stored s ! (length (stored s) - 2) - batteryHistory s ! 9)
           / real_of_int (batteryHistoryIndex s - 1))"
proof -
  have sm: "samples s = batteryHistoryIndex s" using assms(2) by (simp add: samples_def)
  have t: "overallLoop s (batteryHistoryIndex s) 1 0
      = Some (0 + (slot_back s 1 - slot_back s (batteryHistoryIndex s)))"
    using assms(3) by (intro overallLoop_telescope [OF assms(1)]) simp_all
  have a: "slot_back s 1 = stored s ! (length (stored s) - 2)"
    using back_stored [OF assms(1), of 1] sm assms(3) by (simp add: numeral_2_eq_2)
  have b: "slot_back s (batteryHistoryIndex s) = batteryHistory s ! 9"
    by (simp add: slot_back_def)
  show ?thesis
    using t a b by (simp add: overallTrend_def sm)
qed

lemma sum_list_deltas: "xs \<noteq> [] \<Longrightarrow> sum_list (deltas xs) = last xs - hd xs"
  by (induction xs rule: deltas.induct) auto

lemma spec_overall_slope_eq:
  "xs \<noteq> [] \<Longrightarrow> spec_overall_slope xs = (last xs - hd xs) / real (length xs - 1)"
  by (simp add: spec_overall_slope_def sum_list_deltas)


lemma recentLoop_telescope:
  assumes "rtc_ok s" and "1 \<le> i" and "i \<le> r" and "r \<le> batteryHistoryIndex s + 9"
  shows "recentLoop s r i a = Some (a + (slot_back s (i - 1) - slot_back s r))"
  using assms
proof (induction s r i a rule: recentLoop.induct)
  case (1 s r i a)
  have ok: "rtc_ok s" by (rule "1.prems"(1))
  have le: "i \<le> r" by (rule "1.prems"(3))
  have cv: "hist_get s (c_mod (batteryHistoryIndex s - 1 - (i - 1) + BATTERY_TREND_SAMPLES)
        BATTERY_TREND_SAMPLES) = Some (slot_back s (i - 1))"
    using "1.prems" by (intro hist_get_back [OF ok]) simp
  have pv: "hist_get s (c_mod (batteryHistoryIndex s - 1 - i + BATTERY_TREND_SAMPLES)
        BATTERY_TREND_SAMPLES) = Some (slot_back s i)"
    using "1.prems" by (intro hist_get_back [OF ok]) simp
  have step: "recentLoop s r i a
      = recentLoop s r (i + 1) (a + (slot_back s (i - 1) - slot_back s i))"
    using le cv pv by (simp add: recentLoop.simps [of s r i a])
  show ?case
  proof (cases "i + 1 \<le> r")
    case True
    have "recentLoop s r (i + 1) (a + (slot_back s (i - 1) - slot_back s i))
      = Some (a + (slot_back s (i - 1) - slot_back s i) + (slot_back s (i + 1 - 1) - slot_back s r))"
      using "1.IH" [OF le cv pv ok _ True] "1.prems" by simp
    then show ?thesis using step by simp
  next
    case False
    then have "r = i" using le by simp
    then have n: "slot_back s r = slot_back s i" by simp
    have "recentLoop s r (i + 1) (a + (slot_back s (i - 1) - slot_back s i))
       = Some (a + (slot_back s (i - 1) - slot_back s i))"
      using False by (simp add: recentLoop.simps [of s r "i + 1"])
    then show ?thesis using step n by simp
  qed
qed

lemma recentTrend_value:
  assumes "rtc_ok s" and "2 \<le> samples s"
  shows "recentTrend s =
     Some ((stored s ! (length (stored s) - 1)
            - stored s ! (length (stored s) - 1 - nat (min 3 (samples s - 1))))
           / real_of_int (min 3 (samples s - 1)))"
proof -
  define r where "r = min 3 (samples s - 1)"
  have r: "1 \<le> r" "r < samples s" "r \<le> 3" using assms(2) by (simp_all add: r_def)
  have "0 \<le> batteryHistoryIndex s" using assms(1) by (simp add: rtc_ok_def)
  then have "r \<le> batteryHistoryIndex s + 9" using r(3) by simp
  from recentLoop_telescope [OF assms(1) _ r(1) this, of 0]
  have t: "recentLoop s r 1 0 = Some (0 + (slot_back s 0 - slot_back s r))" by simp
  have a: "slot_back s 0 = stored s ! (length (stored s) - 1)"
    using back_stored [OF assms(1), of 0] assms(2) by simp
  have b: "slot_back s r = stored s ! (length (stored s) - 1 - nat r)"
    using back_stored [OF assms(1), of r] r by simp
  show ?thesis
    using t a b by (simp add: recentTrend_def r_def [symmetric])
qed

lemma appendAll_three:
  "appendAll rtc_init [4.15, 4.16, 4.18] =
     Some \<lparr>bootCount = 0, failedUploads = 0,
       batteryHistory = [4.15, 4.16, 4.18, 0, 0, 0, 0, 0, 0, 0],
       batteryHistoryIndex = 3, batteryHistoryFull = False, lastSleepDuration = 120\<rparr>"
  by (simp add: rtc_init_def updateBatteryHistory_def c_mod_def BATTERY_TREND_SAMPLES_def
      SLEEP_DURATION_MINUTES_def Let_def numeral_eq_Suc)

lemma overallTrend_out_of_bounds:
  assumes "batteryHistoryFull s" and "batteryHistoryIndex s = 0"
  shows "overallTrend s = None"
proof -
  have "overallLoop s 10 1 0 = None"
    using overallLoop_out_of_bounds [OF assms(2), of 1 0] by simp
  then show ?thesis
    using assms by (simp add: overallTrend_def samples_def BATTERY_TREND_SAMPLES_def)
qed

text \<open>
  Claim C3, on two histories. After the three samples 4.15, 4.16, 4.18 the mean of the
  consecutive deltas is 0.015, and \<open>overallTrend\<close> is 2.08: the loop of lines 638 to 642
  pairs the slots one step further back than the loop of lines 629 to 633, leaves out
  the newest delta and subtracts slot 9, which holds no sample. After ten samples (buffer
  full, write index 0) its last read is \<^verbatim>\<open>batteryHistory[-1]\<close>, outside the array.
\<close>

theorem overallTrend_is_not_mean_of_deltas:
  "(\<exists>s. appendAll rtc_init [4.15, 4.16, 4.18] = Some s
       \<and> stored s = [4.15, 4.16, 4.18]
       \<and> spec_overall_slope (stored s) = 0.015
       \<and> overallTrend s = Some 2.08)
   \<and> (\<exists>s. appendAll rtc_init [4.00, 4.01, 4.02, 4.03, 4.04, 4.05, 4.06, 4.07, 4.08, 4.09] = Some s
       \<and> stored s = [4.00, 4.01, 4.02, 4.03, 4.04, 4.05, 4.06, 4.07, 4.08, 4.09]
       \<and> overallTrend s = None \<and> isCharging s = None)"
proof -
  let ?s = "\<lparr>bootCount = 0, failedUploads = 0,
       batteryHistory = [4.15, 4.16, 4.18, 0, 0, 0, 0, 0, 0, 0 :: real],
       batteryHistoryIndex = 3, batteryHistoryFull = False, lastSleepDuration = 120\<rparr>"
  have a: "stored ?s = [4.15, 4.16, 4.18]"
    by (simp add: stored_def numeral_eq_Suc)
  have b: "spec_overall_slope [4.15, 4.16, 4.18] = 0.015"
    by (simp add: spec_overall_slope_def)
  have c: "overallTrend ?s = Some 2.08"
    by (simp add: overallTrend_def samples_def overallLoop.simps hist_get_def c_mod_def
        BATTERY_TREND_SAMPLES_def)
  have three: "\<exists>s. appendAll rtc_init [4.15, 4.16, 4.18] = Some s
       \<and> stored s = [4.15, 4.16, 4.18]
       \<and> spec_overall_slope (stored s) = 0.015
       \<and> overallTrend s = Some 2.08"
    using appendAll_three a b c by simp
  let ?vs = "[4.00, 4.01, 4.02, 4.03, 4.04, 4.05, 4.06, 4.07, 4.08, 4.09 :: real]"
  from appendAll_init [of ?vs] obtain t where
    t: "appendAll rtc_init ?vs = Some t" and st: "stored t = last_n 10 ?vs"
    and i: "batteryHistoryIndex t = 0" and f: "batteryHistoryFull t"
    by auto
  have "stored t = ?vs" using st by (simp add: last_n_def)
  then have ten: "\<exists>s. appendAll rtc_init ?vs = Some s \<and> stored s = ?vs
       \<and> overallTrend s = None \<and> isCharging s = None"
    using t overallTrend_out_of_bounds [OF f i] isCharging_out_of_bounds [OF f i] by blast
  show ?thesis using three ten by blast
qed

end
